theory Spec2Isabelle
  imports Complex_Main "HOL-Library.Sublist"
begin

section \<open>Overview\<close>

text \<open>
  A shallow embedding of the mail webhook MCP gateway: the authentication check,
  the fixed-window rate limiter, the cache manager, the stateful stream transport,
  the backend client with its retries, the session registry and the synchronous
  JSON-RPC transport. The definitions follow the TypeScript sources method by
  method; mutable objects become records that each operation takes and returns,
  the clock and the outcomes of the network and of the streams are arguments, and
  thrown errors are values. The properties proved of them come after the
  definitions, component by component.
\<close>

section \<open>JSON values\<close>

text \<open>
  Protocol messages and parsed response bodies are JSON values. \<open>JNull\<close> is JavaScript's
  \<open>null\<close>; an object is the list of its members in document order.
\<close>

datatype json = JNull | JBool bool | JNum int | JStr string
  | JArr "json list" | JObj "(string \<times> json) list"

section \<open>Numbers in template strings\<close>

text \<open>
  The decimal text JavaScript gives an integer in a template string
  (\<open>`${response.status}`\<close>, \<open>(++this.lastEventId).toString()\<close>).
\<close>

definition digit_char :: "nat \<Rightarrow> char" where
  "digit_char d = char_of (48 + d)"

function show_nat :: "nat \<Rightarrow> string" where
  "show_nat n = (if n < 10 then [digit_char n] else show_nat (n div 10) @ [digit_char (n mod 10)])"
  by pat_completeness auto
termination
  by (relation "measure id") auto

declare show_nat.simps [simp del]

definition show_int :: "int \<Rightarrow> string" where
  "show_int i = (if i < 0 then ''-'' @ show_nat (nat (- i)) else show_nat (nat i))"

text \<open>\<open>String.prototype.includes\<close>: the argument occurs as a contiguous part.\<close>

fun str_includes :: "string \<Rightarrow> string \<Rightarrow> bool" where
  "str_includes [] sub = (sub = [])"
| "str_includes (c # cs) sub = (prefix sub (c # cs) \<or> str_includes cs sub)"

section \<open>Authentication: \<open>AuthManager.verifyApiToken\<close> (src/utils/auth.ts)\<close>

text \<open>
  The environment binding \<open>MCP_API_TOKEN?: string\<close> is optional: \<open>None\<close> is the
  unset binding. The argument \<open>token: string | null\<close> is an optional string too.
  JavaScript's \<open>!s\<close> on a string is true exactly for the empty string, so both
  \<open>undefined\<close>/\<open>null\<close> and \<open>""\<close> take the early return.
\<close>

record Env =
  MCP_API_TOKEN :: "string option"
  AUTH_REQUIRED :: "string option"

definition falsy_str :: "string option \<Rightarrow> bool" where
  "falsy_str s = (case s of None \<Rightarrow> True | Some t \<Rightarrow> t = [])"

definition verifyApiToken :: "Env \<Rightarrow> string option \<Rightarrow> bool" where
  "verifyApiToken env token =
     (if falsy_str (MCP_API_TOKEN env) then False
      else if falsy_str token then False
      else (let t = the token;
                cleanToken = (if prefix ''Bearer '' t then drop 7 t else t)
            in Some cleanToken = MCP_API_TOKEN env))"

definition isAuthRequired :: "Env \<Rightarrow> bool" where
  "isAuthRequired env = (AUTH_REQUIRED env \<noteq> Some ''false'')"

section \<open>Rate limiter: \<open>RateLimiter\<close> (src/utils/rateLimiter.ts)\<close>

text \<open>
  \<open>RateLimitConfig\<close> and \<open>RateLimitRecord\<close> are the interfaces of the type
  declarations. Times are epoch milliseconds as \<open>Date.now()\<close> returns them; the
  clock value read by a call is its argument \<open>now\<close>. The numbers of the
  configuration come from \<open>parseInt\<close> and are modelled as integers. The limiter
  object holds the shared configuration and the \<open>Map\<close> of records.
\<close>

record RateLimitConfig =
  enabled :: bool
  windowMs :: int
  maxRequests :: int
  skipSuccessfulRequests :: bool

record RateLimitRecord =
  count :: int
  resetTime :: int
  blocked :: bool

record RateLimitResult =
  limited :: bool
  rec :: RateLimitRecord
  retryAfter :: "int option"

record RateLimiter =
  config :: RateLimitConfig
  records :: "string \<rightharpoonup> RateLimitRecord"

text \<open>
  \<open>generateKey\<close>: an endpoint that is \<open>undefined\<close> or the empty string is falsy,
  and the key is the client id alone.
\<close>

definition generateKey :: "string \<Rightarrow> string option \<Rightarrow> string" where
  "generateKey clientId endpoint =
     (case endpoint of
        None \<Rightarrow> clientId
      | Some e \<Rightarrow> if e \<noteq> [] then clientId @ '':'' @ e else clientId)"

text \<open>
  \<open>isRateLimited\<close> (lines 23-70). The record fetched from the map is replaced by a
  new one when there is none or when \<open>now >= record.resetTime\<close>; the count is
  incremented; above the maximum the record is marked blocked and stored, and
  \<open>retryAfter\<close> is \<open>Math.ceil((record.resetTime - now) / 1000)\<close>. Both branches
  store the record, so the in-place increment of a fetched record and the stored
  value agree. The result field \<open>record\<close> is named \<open>rec\<close> here.
\<close>

definition newRecord :: "RateLimitConfig \<Rightarrow> int \<Rightarrow> RateLimitRecord" where
  "newRecord cfg now = \<lparr>count = 0, resetTime = now + windowMs cfg, blocked = False\<rparr>"

definition isRateLimited ::
  "RateLimiter \<Rightarrow> string \<Rightarrow> string option \<Rightarrow> int \<Rightarrow> RateLimitResult \<times> RateLimiter" where
  "isRateLimited rl clientId endpoint now =
     (if \<not> enabled (config rl) then
        (\<lparr>limited = False, rec = \<lparr>count = 0, resetTime = 0, blocked = False\<rparr>,
          retryAfter = None\<rparr>, rl)
      else
        let key = generateKey clientId endpoint;
            r0 = (case records rl key of
                    None \<Rightarrow> newRecord (config rl) now
                  | Some r \<Rightarrow> if now \<ge> resetTime r then newRecord (config rl) now else r);
            r1 = r0\<lparr>count := count r0 + 1\<rparr>
        in if count r1 > maxRequests (config rl) then
             (let r2 = r1\<lparr>blocked := True\<rparr>
              in (\<lparr>limited = True, rec = r2,
                   retryAfter = Some \<lceil>rat_of_int (resetTime r2 - now) / 1000\<rceil>\<rparr>,
                  rl\<lparr>records := (records rl)(key \<mapsto> r2)\<rparr>))
           else
             (\<lparr>limited = False, rec = r1, retryAfter = None\<rparr>,
              rl\<lparr>records := (records rl)(key \<mapsto> r1)\<rparr>))"

text \<open>A sequence of checks of one client and endpoint, at the given clock readings.\<close>

fun runChecks ::
  "RateLimiter \<Rightarrow> string \<Rightarrow> string option \<Rightarrow> int list \<Rightarrow> RateLimitResult list" where
  "runChecks rl clientId endpoint [] = []"
| "runChecks rl clientId endpoint (now # ts) =
     (let (res, rl') = isRateLimited rl clientId endpoint now
      in res # runChecks rl' clientId endpoint ts)"

definition stateAfterChecks ::
  "RateLimiter \<Rightarrow> string \<Rightarrow> string option \<Rightarrow> int list \<Rightarrow> RateLimiter" where
  "stateAfterChecks rl clientId endpoint ts =
     foldl (\<lambda>l now. snd (isRateLimited l clientId endpoint now)) rl ts"

text \<open>
  \<open>getEndpointConfig\<close> (lines 128-146) returns a \<open>Partial<RateLimitConfig>\<close>: each
  field may be absent. The products \<open>maxRequests * 0.8\<close> and \<open>maxRequests * 0.3\<close>
  are taken in exact rational arithmetic; for the integers \<open>parseInt\<close> yields (below
  \<open>2^50\<close> in size) \<open>Math.floor\<close> of the double product is the same integer.
  A name of \<open>Object.prototype\<close> used as endpoint yields an object without own
  enumerable properties, which \<open>Object.assign\<close> treats like \<open>{}\<close>.
\<close>

record PartialConfig =
  p_enabled :: "bool option"
  p_windowMs :: "int option"
  p_maxRequests :: "int option"
  p_skipSuccessfulRequests :: "bool option"

definition emptyPartial :: PartialConfig where
  "emptyPartial = \<lparr>p_enabled = None, p_windowMs = None, p_maxRequests = None,
                    p_skipSuccessfulRequests = None\<rparr>"

definition getEndpointConfig :: "RateLimiter \<Rightarrow> string \<Rightarrow> PartialConfig" where
  "getEndpointConfig rl endpoint =
     (if endpoint = ''/admin'' then
        emptyPartial\<lparr>p_maxRequests := Some \<lfloor>rat_of_int (maxRequests (config rl)) / 6\<rfloor>,
                      p_windowMs := Some (windowMs (config rl))\<rparr>
      else if endpoint = ''/mcp/tools/call'' then
        emptyPartial\<lparr>p_maxRequests := Some \<lfloor>rat_of_int (maxRequests (config rl)) * (8 / 10)\<rfloor>,
                      p_windowMs := Some (windowMs (config rl))\<rparr>
      else if endpoint = ''/mcp/tools'' then
        emptyPartial\<lparr>p_maxRequests := Some \<lfloor>rat_of_int (maxRequests (config rl)) * (3 / 10)\<rfloor>,
                      p_windowMs := Some (windowMs (config rl))\<rparr>
      else emptyPartial)"

text \<open>\<open>Object.assign(this.config, endpointConfig)\<close>: the fields present overwrite.\<close>

definition assign :: "RateLimitConfig \<Rightarrow> PartialConfig \<Rightarrow> RateLimitConfig" where
  "assign cfg p =
     \<lparr>enabled = (case p_enabled p of None \<Rightarrow> enabled cfg | Some v \<Rightarrow> v),
      windowMs = (case p_windowMs p of None \<Rightarrow> windowMs cfg | Some v \<Rightarrow> v),
      maxRequests = (case p_maxRequests p of None \<Rightarrow> maxRequests cfg | Some v \<Rightarrow> v),
      skipSuccessfulRequests =
        (case p_skipSuccessfulRequests p of None \<Rightarrow> skipSuccessfulRequests cfg | Some v \<Rightarrow> v)\<rparr>"

text \<open>\<open>updateConfig\<close> (lines 229-231): \<open>this.config = { ...this.config, ...newConfig }\<close>.\<close>

definition updateConfig :: "RateLimiter \<Rightarrow> PartialConfig \<Rightarrow> RateLimiter" where
  "updateConfig rl newConfig = rl\<lparr>config := assign (config rl) newConfig\<rparr>"

text \<open>
  \<open>isRateLimitedByEndpoint\<close> (lines 149-166): lines 154-158 overwrite the shared
  configuration in place (\<open>applyEndpointConfig\<close> is the limiter as line 160 finds
  it), line 160 runs the check on it, line 163 puts the saved copy back.
\<close>

definition applyEndpointConfig :: "RateLimiter \<Rightarrow> string \<Rightarrow> RateLimiter" where
  "applyEndpointConfig rl endpoint =
     rl\<lparr>config := assign (config rl) (getEndpointConfig rl endpoint)\<rparr>"

definition isRateLimitedByEndpoint ::
  "RateLimiter \<Rightarrow> string \<Rightarrow> string \<Rightarrow> int \<Rightarrow> RateLimitResult \<times> RateLimiter" where
  "isRateLimitedByEndpoint rl clientId endpoint now =
     (let originalConfig = config rl;
          rl1 = applyEndpointConfig rl endpoint;
          (result, rl2) = isRateLimited rl1 clientId (Some endpoint) now
      in (result, rl2\<lparr>config := originalConfig\<rparr>))"

text \<open>
  The derived configuration in the words of the specification:
  \<open>effectiveConfig(baseConfig, endpoint) -> derivedConfig\<close>, the base maximum scaled by
  1/6 for \<open>/admin\<close>, by 0.8 for \<open>/mcp/tools/call\<close>, by 0.3 for \<open>/mcp/tools\<close>.
\<close>

definition effectiveConfig :: "RateLimitConfig \<Rightarrow> string \<Rightarrow> RateLimitConfig" where
  "effectiveConfig baseConfig endpoint =
     baseConfig\<lparr>maxRequests :=
       (if endpoint = ''/admin'' then \<lfloor>rat_of_int (maxRequests baseConfig) / 6\<rfloor>
        else if endpoint = ''/mcp/tools/call'' then \<lfloor>(8 / 10) * rat_of_int (maxRequests baseConfig)\<rfloor>
        else if endpoint = ''/mcp/tools'' then \<lfloor>(3 / 10) * rat_of_int (maxRequests baseConfig)\<rfloor>
        else maxRequests baseConfig)\<rparr>"

text \<open>Example limiters: the defaults of the constructor, and small ones.\<close>

definition rl_default :: RateLimiter where
  "rl_default = \<lparr>config = \<lparr>enabled = True, windowMs = 60000, maxRequests = 60,
                       skipSuccessfulRequests = False\<rparr>,
           records = Map.empty\<rparr>"

definition rl_disabled :: RateLimiter where
  "rl_disabled = \<lparr>config = \<lparr>enabled = False, windowMs = 60000, maxRequests = 2,
                       skipSuccessfulRequests = False\<rparr>,
           records = Map.empty\<rparr>"

definition rl0 :: RateLimiter where
  "rl0 = \<lparr>config = \<lparr>enabled = True, windowMs = 60000, maxRequests = 2,
                       skipSuccessfulRequests = False\<rparr>,
           records = Map.empty\<rparr>"

section \<open>Cache: \<open>CacheManager\<close> (src/utils/auth.ts, lines 165-423)\<close>

text \<open>
  A cached payload is any JavaScript value (\<open>getOrSet<T>\<close>, and \<open>data?: T\<close> of a
  backend answer may be \<open>undefined\<close>). \<open>jsvalue\<close> has the values that matter to
  \<open>JSON.stringify\<close>: \<open>undefined\<close>, \<open>null\<close>, booleans, numbers (\<open>NaN\<close> and the two
  infinities apart from the finite ones, which are taken exactly), strings, BigInts,
  arrays, and plain objects as the list of their own enumerable properties in
  enumeration order. Values with a \<open>toJSON\<close> method, functions and symbols are left
  out; a value is a finite tree, so it has no cycle.
\<close>

datatype jsnum = NaN | PosInfinity | NegInfinity | Num rat

datatype jsvalue = VUndefined | VNull | VBool bool | VNumber jsnum | VString string
  | VBigInt int | VArray "jsvalue list" | VObject "(string \<times> jsvalue) list"

text \<open>
  \<open>JSON.stringify(data)\<close> (line 275) followed by \<open>response.json()\<close> (line 232).
  \<open>JSON.stringify\<close> throws a TypeError on a BigInt anywhere in the value
  (\<open>throwsOnStringify\<close>); it returns \<open>undefined\<close>, not a text, for \<open>undefined\<close>
  itself (\<open>NoText\<close>); otherwise it returns a text, and \<open>jsonValue v\<close> is the value
  that text parses back to: \<open>NaN\<close> and the infinities become \<open>null\<close>, an
  \<open>undefined\<close> array element becomes \<open>null\<close>, an \<open>undefined\<close> property is dropped.
\<close>

fun throwsOnStringify :: "jsvalue \<Rightarrow> bool" where
  "throwsOnStringify (VBigInt i) = True"
| "throwsOnStringify (VArray xs) = list_ex throwsOnStringify xs"
| "throwsOnStringify (VObject kvs) = list_ex (\<lambda>kv. throwsOnStringify (snd kv)) kvs"
| "throwsOnStringify v = False"

fun jsonValue :: "jsvalue \<Rightarrow> jsvalue" where
  "jsonValue VUndefined = VNull"
| "jsonValue (VNumber n) = (case n of Num q \<Rightarrow> VNumber (Num q) | _ \<Rightarrow> VNull)"
| "jsonValue (VArray xs) = VArray (map jsonValue xs)"
| "jsonValue (VObject kvs) =
     VObject (map (\<lambda>kv. (fst kv, jsonValue (snd kv))) (filter (\<lambda>kv. snd kv \<noteq> VUndefined) kvs))"
| "jsonValue v = v"

datatype stringified = Threw | NoText | Text jsvalue

definition stringify :: "jsvalue \<Rightarrow> stringified" where
  "stringify v = (if throwsOnStringify v then Threw
                  else if v = VUndefined then NoText
                  else Text (jsonValue v))"

text \<open>
  \<open>headers.get('Cache-Control')?.match(/max-age=(\d+)/)?.[1]\<close> (line 219): the
  digits after the leftmost \<open>max-age=\<close> that is followed by a digit, or nothing;
  and \<open>parseInt\<close> of such a string of digits.
\<close>

definition is_digit :: "char \<Rightarrow> bool" where
  "is_digit c = (48 \<le> (of_char c :: nat) \<and> (of_char c :: nat) \<le> 57)"

fun match_max_age :: "string \<Rightarrow> string option" where
  "match_max_age [] = None"
| "match_max_age (c # cs) =
     (if prefix ''max-age='' (c # cs) \<and> takeWhile is_digit (drop 8 (c # cs)) \<noteq> []
      then Some (takeWhile is_digit (drop 8 (c # cs)))
      else match_max_age cs)"

declare match_max_age.simps [simp del]

definition parseInt :: "string \<Rightarrow> nat" where
  "parseInt digits = foldl (\<lambda>n c. 10 * n + (of_char c - 48)) 0 digits"

text \<open>Truthiness of a number: \<open>0\<close> and \<open>NaN\<close> are falsy.\<close>

definition number_truthy :: "jsnum \<Rightarrow> bool" where
  "number_truthy n = (case n of Num q \<Rightarrow> q \<noteq> 0 | NaN \<Rightarrow> False | _ \<Rightarrow> True)"

text \<open>
  \<open>CacheConfig\<close> is the interface of the type declarations (its fields
  \<open>enabled\<close> and \<open>maxAge\<close> are named \<open>c_enabled\<close> and \<open>c_maxAge\<close> here, apart
  from the rate limiter's); its time-to-live fields are JavaScript numbers. The
  Cache API object \<open>caches.default\<close> is a store from request URLs to responses,
  which keeps what \<open>put\<close> wrote until \<open>delete\<close>; \<open>match\<close>, \<open>put\<close> and \<open>delete\<close>
  themselves are taken not to throw. A stored response is what \<open>get\<close> reads of it:
  the body (\<open>None\<close> for the empty body that \<open>new Response(undefined)\<close> has, else
  the value its JSON text parses to), the time its \<open>Date\<close> header parses to
  (\<open>None\<close> when the header is missing or is no date, so that \<open>cacheDate\<close> is falsy
  or the age is \<open>NaN\<close> and no comparison succeeds), and the text of its
  \<open>Cache-Control\<close> header. The methods are modelled as called without the optional
  \<open>CacheKeyOptions\<close>, as every call site does.
\<close>

record CacheConfig =
  c_enabled :: bool
  defaultTtl :: jsnum
  c_maxAge :: jsnum
  staleWhileRevalidate :: "jsnum option"

record CacheEntry =
  body :: "jsvalue option"
  date :: "int option"
  cacheControl :: string

record CacheManager =
  cm_config :: CacheConfig
  keyPrefix :: string

type_synonym cache = "string \<rightharpoonup> CacheEntry"

text \<open>Without options the prefix is \<open>keyPrefix\<close> and the version is \<open>v1\<close>.\<close>

definition generateCacheKey :: "CacheManager \<Rightarrow> string \<Rightarrow> string" where
  "generateCacheKey cm key = keyPrefix cm @ '':'' @ ''v1'' @ '':'' @ key"

definition createCacheRequest :: "string \<Rightarrow> string" where
  "createCacheRequest cacheKey = ''https://cache.example.com/'' @ cacheKey"

definition requestOf :: "CacheManager \<Rightarrow> string \<Rightarrow> string" where
  "requestOf cm key = createCacheRequest (generateCacheKey cm key)"

definition delete :: "CacheManager \<Rightarrow> cache \<Rightarrow> string \<Rightarrow> bool \<times> cache" where
  "delete cm c key =
     (let cacheRequest = requestOf cm key
      in (c cacheRequest \<noteq> None, c(cacheRequest := None)))"

text \<open>
  \<open>get\<close> (lines 204-239). \<open>VNull\<close> is the \<open>null\<close> the method returns when the
  cache is disabled, on a miss, for an expired entry, and from its \<open>catch\<close>, which
  is where \<open>response.json()\<close> ends for an empty body. The expiry test runs only
  under \<open>if (cacheDate && maxAge)\<close>: with no date or no match of the pattern the
  entry is read whatever its age. \<open>age = (Date.now() - new Date(cacheDate).getTime())
  / 1000\<close> is compared with \<open>parseInt(maxAge)\<close>; \<open>now\<close> is the clock reading.
\<close>

definition get :: "CacheManager \<Rightarrow> cache \<Rightarrow> string \<Rightarrow> int \<Rightarrow> jsvalue \<times> cache" where
  "get cm c key now =
     (if \<not> c_enabled (cm_config cm) then (VNull, c)
      else case c (requestOf cm key) of
        None \<Rightarrow> (VNull, c)
      | Some response \<Rightarrow>
          (let cacheDate = date response;
               maxAge = match_max_age (cacheControl response)
           in if (case (cacheDate, maxAge) of
                    (Some d, Some digits) \<Rightarrow>
                      rat_of_int (now - d) / 1000 > rat_of_nat (parseInt digits)
                  | _ \<Rightarrow> False)
              then (VNull, snd (delete cm c key))
              else (case body response of
                      None \<Rightarrow> (VNull, c)
                    | Some data \<Rightarrow> (data, c))))"

text \<open>
  \<open>set\<close> (lines 242-288), named \<open>set_cache\<close> here. The header
  \<open>Date: new Date().toUTCString()\<close> has the format \<open>Tue, 03 Nov 2026 00:45:00 GMT\<close>,
  without milliseconds: \<open>dateHeaderMs now\<close> is the time \<open>get\<close> parses back from
  it, the start of the clock second of the write. \<open>ttl || this.config.defaultTtl\<close>
  takes the default for an absent ttl, for 0 and for \<open>NaN\<close>. The template literal
  \<open>`max-age=${cacheTtl}, public`\<close> writes the number as JavaScript converts numbers
  to strings; that conversion is the parameter \<open>numberText\<close> of the model, of which
  the properties assume only that it writes a whole number in decimal digits (as
  JavaScript does below \<open>10^21\<close>). When \<open>JSON.stringify\<close> throws, the \<open>catch\<close>
  returns \<open>false\<close> and nothing is stored; for \<open>undefined\<close> the response is stored
  with an empty body.
\<close>

definition dateHeaderMs :: "int \<Rightarrow> int" where
  "dateHeaderMs t = (t div 1000) * 1000"

definition cacheTtl :: "CacheManager \<Rightarrow> jsnum option \<Rightarrow> jsnum" where
  "cacheTtl cm ttl =
     (case ttl of None \<Rightarrow> defaultTtl (cm_config cm)
      | Some t \<Rightarrow> if number_truthy t then t else defaultTtl (cm_config cm))"

definition cacheControlHeader :: "(jsnum \<Rightarrow> string) \<Rightarrow> CacheManager \<Rightarrow> jsnum \<Rightarrow> string" where
  "cacheControlHeader numberText cm t =
     (case staleWhileRevalidate (cm_config cm) of
        None \<Rightarrow> ''max-age='' @ numberText t @ '', public''
      | Some s \<Rightarrow>
          if number_truthy s
          then ''max-age='' @ numberText t @ '', stale-while-revalidate='' @ numberText s
               @ '', public''
          else ''max-age='' @ numberText t @ '', public'')"

definition set_cache ::
  "(jsnum \<Rightarrow> string) \<Rightarrow> CacheManager \<Rightarrow> cache \<Rightarrow> string \<Rightarrow> jsvalue \<Rightarrow> jsnum option \<Rightarrow> int
     \<Rightarrow> bool \<times> cache" where
  "set_cache numberText cm c key data ttl now =
     (if \<not> c_enabled (cm_config cm) then (False, c)
      else
        let headerDate = dateHeaderMs now;
            headerCacheControl = cacheControlHeader numberText cm (cacheTtl cm ttl)
        in case stringify data of
             Threw \<Rightarrow> (False, c)
           | NoText \<Rightarrow>
               (True, c(requestOf cm key \<mapsto>
                  \<lparr>body = None, date = Some headerDate, cacheControl = headerCacheControl\<rparr>))
           | Text v \<Rightarrow>
               (True, c(requestOf cm key \<mapsto>
                  \<lparr>body = Some v, date = Some headerDate, cacheControl = headerCacheControl\<rparr>)))"

text \<open>
  \<open>getOrSet\<close> (lines 309-328). The fetch function is a caller's closure; its
  invocations are counted in the state, and \<open>fetchFunction n\<close> is the outcome of the
  invocation after \<open>n\<close> earlier ones: \<open>Inr data\<close> when the promise resolves to
  \<open>data\<close>, \<open>Inl reason\<close> when it rejects, which \<open>getOrSet\<close> passes on without
  writing. The clock is read at \<open>now\<close> by \<open>get\<close> and, after the fetch, at
  \<open>now'\<close> by \<open>set\<close>. The test is \<open>cached !== null\<close>; the call returns the
  fetched \<open>data\<close> itself, not what the cache would read back.
\<close>

record CacheState =
  store :: cache
  fetchCalls :: nat

definition getOrSet ::
  "(jsnum \<Rightarrow> string) \<Rightarrow> CacheManager \<Rightarrow> CacheState \<Rightarrow> string \<Rightarrow> (nat \<Rightarrow> string + jsvalue)
     \<Rightarrow> jsnum option \<Rightarrow> int \<Rightarrow> int \<Rightarrow> (string + jsvalue) \<times> CacheState" where
  "getOrSet numberText cm st key fetchFunction ttl now now' =
     (let (cached, c1) = get cm (store st) key now
      in if cached \<noteq> VNull then (Inr cached, st\<lparr>store := c1\<rparr>)
         else
           (case fetchFunction (fetchCalls st) of
              Inl err \<Rightarrow> (Inl err, \<lparr>store = c1, fetchCalls = Suc (fetchCalls st)\<rparr>)
            | Inr data \<Rightarrow>
                (Inr data,
                 \<lparr>store = snd (set_cache numberText cm c1 key data ttl now'),
                  fetchCalls = Suc (fetchCalls st)\<rparr>)))"

text \<open>
  For the examples: \<open>decimalText\<close> is the JavaScript text of the numbers they use
  (\<open>NaN\<close>, the infinities, whole numbers, and numbers with one decimal place such
  as \<open>1.5\<close>; it is not meant for others); two managers, one enabled and one disabled;
  the empty cache; the payload \<open>{"v":1}\<close>; an entry as \<open>set\<close> writes it at a clock
  reading between 5000 and 5999 ms with ttl 1; and \<open>getOrSet_twice\<close>, two calls of
  \<open>getOrSet\<close> for the key \<open>k\<close> with the same arguments, at the clock readings
  \<open>t1\<close> and \<open>t2\<close>, from the empty cache, giving both results and the number of
  invocations of the fetch function.
\<close>

definition decimalText :: "jsnum \<Rightarrow> string" where
  "decimalText n =
     (case n of
        NaN \<Rightarrow> ''NaN''
      | PosInfinity \<Rightarrow> ''Infinity''
      | NegInfinity \<Rightarrow> ''-Infinity''
      | Num q \<Rightarrow>
          if q = of_int \<lfloor>q\<rfloor> then show_int \<lfloor>q\<rfloor>
          else if q * 10 = of_int \<lfloor>q * 10\<rfloor>
          then (if q < 0 then ''-'' else []) @ show_nat (nat \<lfloor>\<bar>q\<bar>\<rfloor>) @ ''.''
               @ show_nat (nat \<lfloor>\<bar>q\<bar> * 10\<rfloor> mod 10)
          else [])"

definition cm0 :: CacheManager where
  "cm0 = \<lparr>cm_config = \<lparr>c_enabled = True, defaultTtl = Num 3600, c_maxAge = Num 3600,
                           staleWhileRevalidate = None\<rparr>,
           keyPrefix = ''mcp-server''\<rparr>"

definition cm_off :: CacheManager where
  "cm_off = \<lparr>cm_config = \<lparr>c_enabled = False, defaultTtl = Num 3600, c_maxAge = Num 3600,
                           staleWhileRevalidate = None\<rparr>,
           keyPrefix = ''mcp-server''\<rparr>"

definition st0 :: CacheState where
  "st0 = \<lparr>store = Map.empty, fetchCalls = 0\<rparr>"

definition payload :: jsvalue where
  "payload = VObject [(''v'', VNumber (Num 1))]"

definition entry0 :: CacheEntry where
  "entry0 = \<lparr>body = Some payload, date = Some 5000, cacheControl = ''max-age=1, public''\<rparr>"

definition getOrSet_twice ::
  "CacheManager \<Rightarrow> (nat \<Rightarrow> string + jsvalue) \<Rightarrow> jsnum option \<Rightarrow> int \<Rightarrow> int
     \<Rightarrow> (string + jsvalue) \<times> (string + jsvalue) \<times> nat" where
  "getOrSet_twice cm fetchFunction ttl t1 t2 =
     (let (r1, s1) = getOrSet decimalText cm st0 ''k'' fetchFunction ttl t1 t1;
          (r2, s2) = getOrSet decimalText cm s1 ''k'' fetchFunction ttl t2 t2
      in (r1, r2, fetchCalls s2))"

section \<open>Stateful stream transport: \<open>SSETransport\<close> (transports/sseTransport.ts)\<close>

text \<open>
  The transport object: \<open>hasWriter\<close> tells whether \<open>this.writer\<close> is set (it is
  \<open>null\<close> until \<open>createResponse\<close> and after a completed \<open>close\<close>). The stream is
  outside the program: \<open>attempts\<close> lists the chunks passed to \<open>writer.write\<close>, in
  order, and the flag \<open>writeOk\<close> of a call says whether the write it may attempt
  resolves. Event data are passed as their text \<open>JSON.stringify(data)\<close>, or as
  \<open>None\<close> where that call throws (a cyclic value); the data the transport
  builds itself always have a text.
\<close>

datatype transport_error = WriteFailed | StringifyFailed

record SSETransport =
  hasWriter :: bool
  sessionId :: string
  clientEndpoint :: string
  closed :: bool
  lastEventId :: nat
  attempts :: "string list"

definition newSSETransport :: "string \<Rightarrow> string option \<Rightarrow> SSETransport" where
  "newSSETransport sid baseUrl =
     \<lparr>hasWriter = False, sessionId = sid,
      clientEndpoint = (case baseUrl of None \<Rightarrow> [] | Some b \<Rightarrow> b) @ ''/mcp/sse/'' @ sid @ ''/messages'',
      closed = False, lastEventId = 0, attempts = []\<rparr>"

text \<open>
  \<open>sendEvent\<close> (lines 68-96): return at once on a closed transport or without a
  writer; otherwise build the event text and write it; an exception inside the
  \<open>try\<close>, from \<open>JSON.stringify\<close> or from the write, marks the transport closed
  and is rethrown.
\<close>

definition sendEvent ::
  "SSETransport \<Rightarrow> string \<Rightarrow> string option \<Rightarrow> string option \<Rightarrow> int option \<Rightarrow> bool
     \<Rightarrow> (transport_error + unit) \<times> SSETransport" where
  "sendEvent t type eventData eid retry writeOk =
     (if closed t \<or> \<not> hasWriter t then (Inr (), t)
      else
        let useId = (case eid of None \<Rightarrow> False | Some i \<Rightarrow> i \<noteq> []);
            t1 = (if useId then t else t\<lparr>lastEventId := lastEventId t + 1\<rparr>);
            eventId = (if useId then the eid else show_nat (lastEventId t1))
        in case eventData of
             None \<Rightarrow> (Inl StringifyFailed, t1\<lparr>closed := True\<rparr>)
           | Some dataText \<Rightarrow>
               (let sseMessage =
                      (case retry of None \<Rightarrow> [] | Some r \<Rightarrow> ''retry: '' @ show_int r @ [CHR 0x0A])
                      @ ''event: '' @ type @ [CHR 0x0A]
                      @ ''id: '' @ eventId @ [CHR 0x0A]
                      @ ''data: '' @ dataText @ [CHR 0x0A, CHR 0x0A];
                    t2 = t1\<lparr>attempts := attempts t1 @ [sseMessage]\<rparr>
                in if writeOk then (Inr (), t2)
                   else (Inl WriteFailed, t2\<lparr>closed := True\<rparr>)))"

definition sendMessage :: "SSETransport \<Rightarrow> string option \<Rightarrow> bool \<Rightarrow> (transport_error + unit) \<times> SSETransport" where
  "sendMessage t message writeOk = sendEvent t ''message'' message None None writeOk"

definition sendHeartbeat :: "SSETransport \<Rightarrow> string \<Rightarrow> bool \<Rightarrow> (transport_error + unit) \<times> SSETransport" where
  "sendHeartbeat t heartbeatData writeOk = sendEvent t ''heartbeat'' (Some heartbeatData) None None writeOk"

definition sendError :: "SSETransport \<Rightarrow> string \<Rightarrow> bool \<Rightarrow> (transport_error + unit) \<times> SSETransport" where
  "sendError t errorData writeOk = sendEvent t ''error'' (Some errorData) None None writeOk"

definition sendConnectionEvent :: "SSETransport \<Rightarrow> string \<Rightarrow> bool \<Rightarrow> (transport_error + unit) \<times> SSETransport" where
  "sendConnectionEvent t endpointData writeOk = sendEvent t ''endpoint'' (Some endpointData) None None writeOk"

definition createResponse :: "SSETransport \<Rightarrow> string \<Rightarrow> bool \<Rightarrow> SSETransport" where
  "createResponse t endpointData writeOk =
     snd (sendConnectionEvent (t\<lparr>hasWriter := True\<rparr>) endpointData writeOk)"

text \<open>
  \<open>close\<close> (lines 132-154): nothing on a closed transport; otherwise the flag is
  set first, then \<open>sendEvent('close', ...)\<close> and \<open>writer.close()\<close> run inside a
  \<open>try\<close> whose \<open>catch\<close> only logs (\<open>closeOk\<close>: whether \<open>writer.close()\<close>
  resolves).
\<close>

definition close :: "SSETransport \<Rightarrow> string \<Rightarrow> bool \<Rightarrow> bool \<Rightarrow> SSETransport" where
  "close t closeData writeOk closeOk =
     (if closed t then t
      else
        let t1 = t\<lparr>closed := True\<rparr>
        in if hasWriter t1 then
             (case sendEvent t1 ''close'' (Some closeData) None None writeOk of
                (Inl err, t2) \<Rightarrow> t2
              | (Inr u, t2) \<Rightarrow> if closeOk then t2\<lparr>hasWriter := False\<rparr> else t2)
           else t1)"

definition isClosed :: "SSETransport \<Rightarrow> bool" where
  "isClosed t = closed t"

text \<open>The public methods as operations, with the outcomes of the stream, and their runs.\<close>

datatype transport_op =
    CreateResponse string bool
  | SendEvent string "string option" "string option" "int option" bool
  | SendMessage "string option" bool
  | SendHeartbeat string bool
  | SendError string bool
  | Close string bool bool

fun transport_step :: "SSETransport \<Rightarrow> transport_op \<Rightarrow> SSETransport" where
  "transport_step t (CreateResponse d w) = createResponse t d w"
| "transport_step t (SendEvent ty d i r w) = snd (sendEvent t ty d i r w)"
| "transport_step t (SendMessage d w) = snd (sendMessage t d w)"
| "transport_step t (SendHeartbeat d w) = snd (sendHeartbeat t d w)"
| "transport_step t (SendError d w) = snd (sendError t d w)"
| "transport_step t (Close d w c) = close t d w c"

definition transport_run :: "SSETransport \<Rightarrow> transport_op list \<Rightarrow> SSETransport" where
  "transport_run t ops = foldl transport_step t ops"

definition tr_open :: SSETransport where
  "tr_open = (newSSETransport ''s1'' None)\<lparr>hasWriter := True\<rparr>"

section \<open>Backend client: \<open>HttpClient\<close> (utils/httpClient.ts)\<close>

text \<open>
  The client holds the base URL, the timeout, the retry count
  (\<open>options.retries || 2\<close>) and whether a service binding exists and is used. The
  network is outside the program: \<open>net n\<close> is what attempt number \<open>n\<close> meets,
  either a response with its status and its parsed JSON body, or an exception
  thrown by \<open>fetch\<close> or by \<open>response.json()\<close> (an \<open>AbortError\<close> when the timeout
  aborts the request). An error is its \<open>name\<close> and \<open>message\<close> (here \<open>error_name\<close>, \<open>error_message\<close>). The body is read
  through the fields \<open>message\<close>, \<open>error\<close> and \<open>details\<close>; a field that is absent
  or the empty string is falsy. The texts of the two configuration errors are
  given by their UTF-8 bytes.
\<close>

record JsError =
  error_name :: string
  error_message :: string

record ApiResponse =
  success :: bool
  r_data :: "string option"
  r_message :: "string option"
  r_error :: "string option"
  r_details :: "string option"

datatype fetch_outcome =
    Responded nat ApiResponse
  | Thrown JsError

record HttpClient =
  baseUrl :: "string option"
  timeout :: nat
  retries :: nat
  hasServiceBinding :: bool
  useServiceBinding :: bool

definition truthy :: "string option \<Rightarrow> bool" where
  "truthy s = (case s of None \<Rightarrow> False | Some t \<Rightarrow> t \<noteq> [])"

definition response_ok :: "nat \<Rightarrow> bool" where
  "response_ok status = (200 \<le> status \<and> status \<le> 299)"

definition not_configured :: string where
  "not_configured = [CHR 0xE6, CHR 0x9C, CHR 0xAA, CHR 0xE9, CHR 0x85, CHR 0x8D,
                     CHR 0xE7, CHR 0xBD, CHR 0xAE]"

definition makeServiceBindingRequest :: "HttpClient \<Rightarrow> fetch_outcome \<Rightarrow> fetch_outcome" where
  "makeServiceBindingRequest c net =
     (if \<not> hasServiceBinding c
      then Thrown \<lparr>error_name = ''Error'',
                   error_message = [CHR 0xE6, CHR 0x9C, CHR 0x8D, CHR 0xE5, CHR 0x8A, CHR 0xA1,
                              CHR 0xE7, CHR 0xBB, CHR 0x91, CHR 0xE5, CHR 0xAE, CHR 0x9A]
                             @ not_configured\<rparr>
      else net)"

definition makeHttpRequest :: "HttpClient \<Rightarrow> fetch_outcome \<Rightarrow> fetch_outcome" where
  "makeHttpRequest c net =
     (if \<not> truthy (baseUrl c)
      then Thrown \<lparr>error_name = ''Error'', error_message = ''HTTP API URL '' @ not_configured\<rparr>
      else net)"

text \<open>
  Lines 41-60 of \<open>makeRequest\<close>: one attempt. A response that is not \<open>ok\<close>
  (status outside 200-299) throws an \<open>Error\<close> whose message starts with
  \<open>Service\<close> when \<open>useServiceBinding\<close> is set and with \<open>HTTP\<close> otherwise.
\<close>

definition attemptRequest :: "HttpClient \<Rightarrow> fetch_outcome \<Rightarrow> JsError + ApiResponse" where
  "attemptRequest c net =
     (case (if useServiceBinding c \<and> hasServiceBinding c
            then makeServiceBindingRequest c net else makeHttpRequest c net) of
        Thrown e \<Rightarrow> Inl e
      | Responded status result \<Rightarrow>
          if \<not> response_ok status then
            (let errorMessage =
                   (if truthy (r_message result) then the (r_message result)
                    else if truthy (r_error result) then the (r_error result)
                    else ''Unknown error'');
                 details = (if truthy (r_details result) then '' - '' @ the (r_details result)
                            else [])
             in Inl \<lparr>error_name = ''Error'',
                     error_message = (if useServiceBinding c then ''Service'' else ''HTTP'') @ '' ''
                               @ show_nat status @ '': '' @ errorMessage @ details\<rparr>)
          else Inr result)"

text \<open>\<open>isRetryableError\<close> (lines 142-146).\<close>

definition isRetryableError :: "JsError \<Rightarrow> bool" where
  "isRetryableError error =
     (if error_name error = ''AbortError'' then False
      else if str_includes (error_message error) ''HTTP 4'' then False
      else True)"

text \<open>
  \<open>makeRequest\<close> (lines 35-70) with its \<open>catch\<close>: while \<open>attempt <= retries\<close> and
  the error is retryable, wait \<open>Math.pow(2, attempt - 1) * 1000\<close> ms and try again
  with \<open>attempt + 1\<close>. The result is the list of delays waited, in milliseconds,
  and the response returned or the error thrown at the end.
\<close>

function makeRequest ::
  "HttpClient \<Rightarrow> (nat \<Rightarrow> fetch_outcome) \<Rightarrow> nat \<Rightarrow> nat list \<times> (JsError + ApiResponse)" where
  "makeRequest c net attempt =
     (case attemptRequest c (net attempt) of
        Inr result \<Rightarrow> ([], Inr result)
      | Inl error \<Rightarrow>
          if attempt \<le> retries c \<and> isRetryableError error
          then (case makeRequest c net (attempt + 1) of
                  (delays, r) \<Rightarrow> (2 ^ (attempt - 1) * 1000 # delays, r))
          else ([], Inl error))"
  by pat_completeness auto
termination
  by (relation "measure (\<lambda>(c, net, attempt). Suc (retries c) - attempt)") auto

declare makeRequest.simps [simp del]

text \<open>Example: a 404 answer of the backend, met by a client of either kind.\<close>

definition notFound :: ApiResponse where
  "notFound = \<lparr>success = False, r_data = None, r_message = Some ''Not Found'',
               r_error = None, r_details = None\<rparr>"

definition bindingClient :: HttpClient where
  "bindingClient = \<lparr>baseUrl = None, timeout = 10000, retries = 2,
                     hasServiceBinding = True, useServiceBinding = True\<rparr>"

definition apiClient :: HttpClient where
  "apiClient = \<lparr>baseUrl = Some ''https://mail.example.com'', timeout = 10000, retries = 2,
                 hasServiceBinding = False, useServiceBinding = False\<rparr>"

section \<open>Session registry: \<open>SSESessionManager\<close> (src/session/sessionManager.ts)\<close>

text \<open>
  The static \<open>Map\<close> of sessions is the list of its entries in insertion order,
  which is the order \<open>Array.from(this.sessions.entries())\<close> yields: \<open>map_set\<close>
  replaces the value of a present key in place and appends a new key,
  \<open>map_delete\<close> removes a key. A call reads the clock once, as its argument
  \<open>now\<close>. \<open>closeCalls\<close> lists the sessions whose \<open>transport.close()\<close> has been
  called by \<open>removeSession\<close>; the transport object leaves the table with its
  entry.
\<close>

record ClientInfo =
  userAgent :: "string option"
  ip :: "string option"

record SessionInfo =
  s_id :: string
  transport :: SSETransport
  createdAt :: int
  lastActivityAt :: int
  clientInfo :: "ClientInfo option"

record SSESessionManager =
  sessions :: "(string \<times> SessionInfo) list"
  lastCleanup :: int
  closeCalls :: "string list"

definition SESSION_TIMEOUT :: int where "SESSION_TIMEOUT = 5 * 60 * 1000"
definition MAX_SESSIONS :: nat where "MAX_SESSIONS = 100"
definition CLEANUP_INTERVAL :: int where "CLEANUP_INTERVAL = 60 * 1000"

fun map_set :: "(string \<times> 'v) list \<Rightarrow> string \<Rightarrow> 'v \<Rightarrow> (string \<times> 'v) list" where
  "map_set [] k v = [(k, v)]"
| "map_set ((k', v') # xs) k v = (if k' = k then (k, v) # xs else (k', v') # map_set xs k v)"

definition map_delete :: "(string \<times> 'v) list \<Rightarrow> string \<Rightarrow> (string \<times> 'v) list" where
  "map_delete xs k = filter (\<lambda>e. fst e \<noteq> k) xs"

definition isSessionExpired :: "int \<Rightarrow> SessionInfo \<Rightarrow> bool" where
  "isSessionExpired now info = (now - lastActivityAt info > SESSION_TIMEOUT)"

definition removeSession :: "SSESessionManager \<Rightarrow> string \<Rightarrow> SSESessionManager" where
  "removeSession m sid =
     (case map_of (sessions m) sid of
        None \<Rightarrow> m
      | Some info \<Rightarrow>
          m\<lparr>closeCalls := closeCalls m @ [sid],
            sessions := map_delete (sessions m) sid\<rparr>)"

definition cleanupExpiredSessions :: "SSESessionManager \<Rightarrow> int \<Rightarrow> nat \<times> SSESessionManager" where
  "cleanupExpiredSessions m now =
     (if now - lastCleanup m < CLEANUP_INTERVAL then (0, m)
      else
        let m1 = m\<lparr>lastCleanup := now\<rparr>;
            expiredSessions =
              map fst (filter (\<lambda>e. isSessionExpired now (snd e) \<or> isClosed (transport (snd e)))
                         (sessions m1))
        in (length expiredSessions, foldl removeSession m1 expiredSessions))"

text \<open>
  \<open>cleanupOldestSessions\<close> (lines 255-269): the entries sorted by
  \<open>a.createdAt.getTime() - b.createdAt.getTime()\<close>, a stable sort, cut to the first
  \<open>count\<close>; each of them is removed.
\<close>

definition oldest :: "nat \<Rightarrow> (string \<times> SessionInfo) list \<Rightarrow> (string \<times> SessionInfo) list" where
  "oldest n entries = take n (sort_key (\<lambda>e. createdAt (snd e)) entries)"

definition cleanupOldestSessions :: "SSESessionManager \<Rightarrow> nat \<Rightarrow> nat \<times> SSESessionManager" where
  "cleanupOldestSessions m n =
     (let victims = oldest n (sessions m)
      in (length victims, foldl removeSession m (map fst victims)))"

text \<open>
  \<open>createSession\<close> (lines 37-59) sweeps expired sessions, evicts
  \<open>Math.floor(MAX_SESSIONS * 0.1)\<close> sessions when the table holds \<open>MAX_SESSIONS\<close> or
  more, and returns \<open>crypto.randomUUID()\<close>, here the argument \<open>uuid\<close>; it inserts
  nothing. \<open>addSession\<close> (lines 64-78) inserts, without any check.
  \<open>createAndAdd\<close> is lines 38-47 of \<open>handleSSEConnection\<close>, the only caller of the
  two, which runs them one after the other without suspension.
\<close>

definition createSession ::
  "SSESessionManager \<Rightarrow> ClientInfo option \<Rightarrow> int \<Rightarrow> string \<Rightarrow> string \<times> SSESessionManager" where
  "createSession m ci now uuid =
     (let m1 = snd (cleanupExpiredSessions m now);
          m2 = (if length (sessions m1) \<ge> MAX_SESSIONS
                then snd (cleanupOldestSessions m1 (nat \<lfloor>rat_of_nat MAX_SESSIONS * (1 / 10)\<rfloor>))
                else m1)
      in (uuid, m2))"

definition addSession ::
  "SSESessionManager \<Rightarrow> string \<Rightarrow> SSETransport \<Rightarrow> ClientInfo option \<Rightarrow> int \<Rightarrow> SSESessionManager" where
  "addSession m sid tr ci now =
     m\<lparr>sessions := map_set (sessions m) sid
          \<lparr>s_id = sid, transport = tr, createdAt = now, lastActivityAt = now,
           clientInfo = ci\<rparr>\<rparr>"

definition createAndAdd ::
  "SSESessionManager \<Rightarrow> ClientInfo option \<Rightarrow> int \<Rightarrow> string \<Rightarrow> string \<times> SSESessionManager" where
  "createAndAdd m ci now uuid =
     (let (sid, m1) = createSession m ci now uuid;
          tr = newSSETransport sid None
      in (sid, addSession m1 sid tr ci now))"

definition getSession ::
  "SSESessionManager \<Rightarrow> string \<Rightarrow> int \<Rightarrow> SSETransport option \<times> SSESessionManager" where
  "getSession m sid now =
     (case map_of (sessions m) sid of
        None \<Rightarrow> (None, m)
      | Some info \<Rightarrow>
          if isSessionExpired now info then (None, removeSession m sid)
          else (Some (transport info),
                m\<lparr>sessions := map_set (sessions m) sid
                                  (info\<lparr>lastActivityAt := now\<rparr>)\<rparr>))"

definition cleanupAllSessions :: "SSESessionManager \<Rightarrow> nat \<times> SSESessionManager" where
  "cleanupAllSessions m =
     (length (sessions m), foldl removeSession m (map fst (sessions m)))"

text \<open>Operations on the table, and their runs from the empty table.\<close>

datatype session_op =
    Connect "ClientInfo option" int string
  | GetSession string int
  | RemoveSession string
  | CleanupExpired int
  | CleanupAll

fun session_step :: "SSESessionManager \<Rightarrow> session_op \<Rightarrow> SSESessionManager" where
  "session_step m (Connect ci now uuid) = snd (createAndAdd m ci now uuid)"
| "session_step m (GetSession sid now) = snd (getSession m sid now)"
| "session_step m (RemoveSession sid) = removeSession m sid"
| "session_step m (CleanupExpired now) = snd (cleanupExpiredSessions m now)"
| "session_step m CleanupAll = snd (cleanupAllSessions m)"

definition initialManager :: "int \<Rightarrow> SSESessionManager" where
  "initialManager t0 = \<lparr>sessions = [], lastCleanup = t0, closeCalls = []\<rparr>"

definition session_run :: "SSESessionManager \<Rightarrow> session_op list \<Rightarrow> SSESessionManager" where
  "session_run m ops = foldl session_step m ops"

text \<open>The table is within capacity and its keys are distinct, as those of a \<open>Map\<close> are.\<close>

definition table_ok :: "SSESessionManager \<Rightarrow> bool" where
  "table_ok m = (length (sessions m) \<le> MAX_SESSIONS \<and> distinct (map fst (sessions m)))"

text \<open>
  Example: a table of 100 sessions \<open>s0\<close> to \<open>s99\<close>, created at times 0 to 99; all
  but the last were active at 400000.
\<close>

definition exampleInfo :: "nat \<Rightarrow> string \<times> SessionInfo" where
  "exampleInfo i =
     (''s'' @ show_nat i,
      \<lparr>s_id = ''s'' @ show_nat i, transport = newSSETransport (''s'' @ show_nat i) None,
       createdAt = int i, lastActivityAt = (if i = 99 then 99 else 400000),
       clientInfo = None\<rparr>)"

definition fullTable :: "int \<Rightarrow> SSESessionManager" where
  "fullTable swept = \<lparr>sessions = map exampleInfo [0..<100], lastCleanup = swept, closeCalls = []\<rparr>"

section \<open>Synchronous transport: \<open>McpStreamableHttpHandler\<close> (handlers/mcpStreamableHttp.ts)\<close>

text \<open>
  A request body is any JSON value (\<open>message: any\<close>). \<open>json_truthy\<close> is
  JavaScript's truthiness of a JSON value; \<open>get_prop v k\<close> is the property access
  \<open>v.k\<close>, with \<open>None\<close> for \<open>undefined\<close> (a member that is absent, or a value
  that is not an object; of a repeated member \<open>JSON.parse\<close> keeps the last);
  \<open>template\<close> is the text of a value inside a template string.
\<close>

fun json_truthy :: "json \<Rightarrow> bool" where
  "json_truthy JNull = False"
| "json_truthy (JBool b) = b"
| "json_truthy (JNum n) = (n \<noteq> 0)"
| "json_truthy (JStr s) = (s \<noteq> [])"
| "json_truthy (JArr xs) = True"
| "json_truthy (JObj kvs) = True"

definition truthy_opt :: "json option \<Rightarrow> bool" where
  "truthy_opt v = (case v of None \<Rightarrow> False | Some j \<Rightarrow> json_truthy j)"

definition get_prop :: "json \<Rightarrow> string \<Rightarrow> json option" where
  "get_prop v k = (case v of JObj kvs \<Rightarrow> map_of (rev kvs) k | _ \<Rightarrow> None)"

fun js_toString :: "json \<Rightarrow> string" and js_elems :: "json list \<Rightarrow> string" where
  "js_toString JNull = ''null''"
| "js_toString (JBool b) = (if b then ''true'' else ''false'')"
| "js_toString (JNum n) = show_int n"
| "js_toString (JStr s) = s"
| "js_toString (JArr xs) = js_elems xs"
| "js_toString (JObj kvs) = ''[object Object]''"
| "js_elems [] = []"
| "js_elems [x] = (if x = JNull then [] else js_toString x)"
| "js_elems (x # y # ys) = (if x = JNull then [] else js_toString x) @ '','' @ js_elems (y # ys)"

definition template :: "json option \<Rightarrow> string" where
  "template v = (case v of None \<Rightarrow> ''undefined'' | Some j \<Rightarrow> js_toString j)"

text \<open>
  The enum \<open>McpErrorCode\<close> of the type declarations is not among the sources; its
  members are the five the handlers name. A response is a \<open>JsonRpcMessage\<close> with
  its \<open>id\<close> (here \<open>rpc_id\<close>) and either a result or an error.
\<close>

datatype McpErrorCode = ParseError | InvalidRequest | MethodNotFound | InvalidParams | InternalError

record JsonRpcError =
  code :: McpErrorCode
  e_message :: string
  e_data :: "string option"

record JsonRpcMessage =
  jsonrpc :: string
  rpc_id :: json
  rpc_result :: "json option"
  rpc_error :: "JsonRpcError option"

text \<open>
  The tool registry is a collaborator of the handler: \<open>listTools\<close> is its catalog,
  and \<open>callToolText name args\<close> is what \<open>toolRegistry.callTool(name, args)\<close> does,
  \<open>Inl\<close> the message of an exception it throws, \<open>Inr (success, text)\<close> its
  result with the text \<open>formatToolResult\<close> gives it. The request context \<open>c\<close>
  carries the headers read, the two names of the environment, the parsed body
  (\<open>None\<close> when \<open>c.req.json()\<close> throws), and the platform: the clock,
  \<open>new Date().toISOString()\<close> and the values of \<open>crypto.randomUUID()\<close>. The
  handler's state is its session map and the number of UUIDs drawn.
\<close>

record McpTool =
  tool_name :: string
  tool_description :: string
  inputSchema :: json

record ToolRegistry =
  listTools :: "McpTool list"
  callToolText :: "json \<Rightarrow> json \<Rightarrow> string + (bool \<times> string)"

record Context =
  contentType :: "string option"
  sessionHeader :: "string option"
  MCP_SERVER_NAME :: "string option"
  MCP_SERVER_VERSION :: "string option"
  reqJson :: "json option"
  clock :: int
  isoTime :: string
  randomUUID :: "nat \<Rightarrow> string"

record HandlerState =
  http_sessions :: "(string \<times> int \<times> int) list"
  uuidsDrawn :: nat

text \<open>The texts of the error messages, by their UTF-8 bytes.\<close>

definition txt_invalid_format :: string where
  "txt_invalid_format = [CHR 0xE6, CHR 0x97, CHR 0xA0, CHR 0xE6, CHR 0x95, CHR 0x88, CHR 0xE7, CHR 0x9A, CHR 0x84] @ '' JSON-RPC '' @ [CHR 0xE6, CHR 0xA0, CHR 0xBC, CHR 0xE5, CHR 0xBC, CHR 0x8F]"

definition txt_unknown_method :: string where
  "txt_unknown_method = [CHR 0xE6, CHR 0x9C, CHR 0xAA, CHR 0xE7, CHR 0x9F, CHR 0xA5, CHR 0xE6, CHR 0x96, CHR 0xB9, CHR 0xE6, CHR 0xB3, CHR 0x95] @ '': ''"

definition txt_missing_tool_name :: string where
  "txt_missing_tool_name = [CHR 0xE7, CHR 0xBC, CHR 0xBA, CHR 0xE5, CHR 0xB0, CHR 0x91, CHR 0xE5, CHR 0xB7, CHR 0xA5, CHR 0xE5, CHR 0x85, CHR 0xB7, CHR 0xE5, CHR 0x90, CHR 0x8D, CHR 0xE7, CHR 0xA7, CHR 0xB0]"

definition txt_tool_call_failed :: string where
  "txt_tool_call_failed = [CHR 0xE5, CHR 0xB7, CHR 0xA5, CHR 0xE5, CHR 0x85, CHR 0xB7, CHR 0xE8, CHR 0xB0, CHR 0x83, CHR 0xE7, CHR 0x94, CHR 0xA8, CHR 0xE5, CHR 0xA4, CHR 0xB1, CHR 0xE8, CHR 0xB4, CHR 0xA5]"

definition txt_need_json :: string where
  "txt_need_json = [CHR 0xE5, CHR 0xBF, CHR 0x85, CHR 0xE9, CHR 0xA1, CHR 0xBB, CHR 0xE4, CHR 0xBD, CHR 0xBF, CHR 0xE7, CHR 0x94, CHR 0xA8] @ '' application/json''"

definition txt_parse_failed :: string where
  "txt_parse_failed = [CHR 0xE8, CHR 0xAF, CHR 0xB7, CHR 0xE6, CHR 0xB1, CHR 0x82, CHR 0xE8, CHR 0xA7, CHR 0xA3, CHR 0xE6, CHR 0x9E, CHR 0x90, CHR 0xE5, CHR 0xA4, CHR 0xB1, CHR 0xE8, CHR 0xB4, CHR 0xA5]"

text \<open>
  \<open>createJsonRpcError\<close> (lines 480-495): \<open>id: id || null\<close>, and the member
  \<open>data\<close> only when \<open>data\<close> is truthy.
\<close>

definition createJsonRpcError ::
  "json option \<Rightarrow> McpErrorCode \<Rightarrow> string \<Rightarrow> string option \<Rightarrow> JsonRpcMessage" where
  "createJsonRpcError eid c msg d =
     \<lparr>jsonrpc = ''2.0'',
      rpc_id = (if truthy_opt eid then the eid else JNull),
      rpc_result = None,
      rpc_error = Some \<lparr>code = c, e_message = msg,
                         e_data = (case d of None \<Rightarrow> None
                                   | Some t \<Rightarrow> if t \<noteq> [] then Some t else None)\<rparr>\<rparr>"

definition str_or :: "string option \<Rightarrow> string \<Rightarrow> string" where
  "str_or s d = (case s of None \<Rightarrow> d | Some t \<Rightarrow> if t \<noteq> [] then t else d)"

fun session_set :: "(string \<times> 'v) list \<Rightarrow> string \<Rightarrow> 'v \<Rightarrow> (string \<times> 'v) list" where
  "session_set [] k v = [(k, v)]"
| "session_set ((k', v') # xs) k v = (if k' = k then (k, v) # xs else (k', v') # session_set xs k v)"

definition getOrCreateSession :: "HandlerState \<Rightarrow> Context \<Rightarrow> string \<times> HandlerState" where
  "getOrCreateSession st c =
     (case (case sessionHeader c of
              None \<Rightarrow> None
            | Some existing \<Rightarrow>
                if existing \<noteq> [] then map_option (Pair existing) (map_of (http_sessions st) existing)
                else None) of
        Some (existing, created, lastActivity) \<Rightarrow>
          (existing,
           st\<lparr>http_sessions := session_set (http_sessions st) existing (created, clock c)\<rparr>)
      | None \<Rightarrow>
          (let sid = randomUUID c (uuidsDrawn st)
           in (sid, \<lparr>http_sessions = session_set (http_sessions st) sid (clock c, clock c),
                      uuidsDrawn = Suc (uuidsDrawn st)\<rparr>)))"

text \<open>The method handlers (lines 155-268); each answers with \<open>id: message.id\<close>.\<close>

definition handleInitializeMethod ::
  "HandlerState \<Rightarrow> Context \<Rightarrow> json \<Rightarrow> JsonRpcMessage \<times> HandlerState" where
  "handleInitializeMethod st c message =
     (let (sid, st') = getOrCreateSession st c
      in (\<lparr>jsonrpc = ''2.0'', rpc_id = the (get_prop message ''id''),
           rpc_result = Some (JObj
             [(''protocolVersion'', JStr ''2024-11-05''),
              (''capabilities'',
                 JObj [(''tools'', JObj []), (''resources'', JObj []), (''prompts'', JObj [])]),
              (''serverInfo'',
                 JObj [(''name'', JStr (str_or (MCP_SERVER_NAME c) ''Mail Webhook MCP Server'')),
                       (''version'', JStr (str_or (MCP_SERVER_VERSION c) ''1.0.0''))]),
              (''sessionId'', JStr sid)]),
           rpc_error = None\<rparr>, st'))"

definition handleListToolsMethod :: "ToolRegistry \<Rightarrow> json \<Rightarrow> JsonRpcMessage" where
  "handleListToolsMethod reg message =
     \<lparr>jsonrpc = ''2.0'', rpc_id = the (get_prop message ''id''),
      rpc_result = Some (JObj
        [(''tools'', JArr (map (\<lambda>tool. JObj [(''name'', JStr (tool_name tool)),
                                             (''description'', JStr (tool_description tool)),
                                             (''inputSchema'', inputSchema tool)])
                             (listTools reg)))]),
      rpc_error = None\<rparr>"

definition handleCallToolMethod :: "ToolRegistry \<Rightarrow> json \<Rightarrow> JsonRpcMessage" where
  "handleCallToolMethod reg message =
     (let params = get_prop message ''params'';
          toolName = (case params of None \<Rightarrow> None | Some p \<Rightarrow> get_prop p ''name'')
      in if \<not> truthy_opt toolName
         then createJsonRpcError (get_prop message ''id'') InvalidParams txt_missing_tool_name None
         else
           (let args = (case get_prop (the params) ''arguments'' of None \<Rightarrow> JObj [] | Some a \<Rightarrow> a)
            in case callToolText reg (the toolName) args of
                 Inl err \<Rightarrow>
                   createJsonRpcError (get_prop message ''id'') InternalError txt_tool_call_failed
                     (Some err)
               | Inr (ok, text) \<Rightarrow>
                   \<lparr>jsonrpc = ''2.0'', rpc_id = the (get_prop message ''id''),
                    rpc_result = Some (JObj
                      [(''content'', JArr [JObj [(''type'', JStr ''text''), (''text'', JStr text)]]),
                       (''isError'', JBool (\<not> ok))]),
                    rpc_error = None\<rparr>))"

definition createPingResponse :: "Context \<Rightarrow> json \<Rightarrow> JsonRpcMessage" where
  "createPingResponse c message =
     \<lparr>jsonrpc = ''2.0'', rpc_id = the (get_prop message ''id''),
      rpc_result = Some (JObj [(''pong'', JBool True), (''timestamp'', JStr (isoTime c))]),
      rpc_error = None\<rparr>"

text \<open>
  \<open>processJsonRpcMessage\<close> (lines 103-150): \<open>None\<close> is the \<open>null\<close> returned for
  a notification, a message whose \<open>id\<close> is \<open>undefined\<close>. The \<open>switch\<close> compares
  with \<open>===\<close>. No handler throws past its own \<open>catch\<close>, so the outer
  \<open>catch\<close> is not reached.
\<close>

definition processJsonRpcMessage ::
  "ToolRegistry \<Rightarrow> HandlerState \<Rightarrow> Context \<Rightarrow> json \<Rightarrow> JsonRpcMessage option \<times> HandlerState" where
  "processJsonRpcMessage reg st c message =
     (if \<not> json_truthy message \<or> get_prop message ''jsonrpc'' \<noteq> Some (JStr ''2.0'')
      then (Some (createJsonRpcError (get_prop message ''id'') InvalidRequest txt_invalid_format None),
            st)
      else if get_prop message ''id'' = None then (None, st)
      else if get_prop message ''method'' = Some (JStr ''initialize'')
      then (case handleInitializeMethod st c message of (r, st') \<Rightarrow> (Some r, st'))
      else if get_prop message ''method'' = Some (JStr ''tools/list'')
      then (Some (handleListToolsMethod reg message), st)
      else if get_prop message ''method'' = Some (JStr ''tools/call'')
      then (Some (handleCallToolMethod reg message), st)
      else if get_prop message ''method'' = Some (JStr ''ping'')
      then (Some (createPingResponse c message), st)
      else (Some (createJsonRpcError (get_prop message ''id'') MethodNotFound
                    (txt_unknown_method @ template (get_prop message ''method'')) None), st))"

text \<open>
  \<open>Promise.all(body.map(...))\<close>: the messages of a batch are started in order, and
  each changes the handler's state before its first suspension, so the state is
  threaded from left to right; the results keep the order of the messages.
\<close>

fun processAll ::
  "ToolRegistry \<Rightarrow> HandlerState \<Rightarrow> Context \<Rightarrow> json list
     \<Rightarrow> JsonRpcMessage option list \<times> HandlerState" where
  "processAll reg st c [] = ([], st)"
| "processAll reg st c (message # rest) =
     (case processJsonRpcMessage reg st c message of
        (r, st') \<Rightarrow> (case processAll reg st' c rest of (rs, st'') \<Rightarrow> (r # rs, st'')))"

text \<open>
  \<open>handleHttpPost\<close> (lines 43-78). A response is its status and its body: none,
  one JSON-RPC message, or a JSON array of them (\<open>c.json\<close> answers with status
  200).
\<close>

datatype http_body = NoBody | One JsonRpcMessage | Many "JsonRpcMessage list"

record HttpResponse =
  status :: nat
  resp_body :: http_body

definition createJsonRpcErrorResponse ::
  "json option \<Rightarrow> McpErrorCode \<Rightarrow> string \<Rightarrow> HttpResponse" where
  "createJsonRpcErrorResponse eid c msg =
     \<lparr>status = 400, resp_body = One (createJsonRpcError eid c msg None)\<rparr>"

definition handleHttpPost ::
  "ToolRegistry \<Rightarrow> HandlerState \<Rightarrow> Context \<Rightarrow> HttpResponse \<times> HandlerState" where
  "handleHttpPost reg st c =
     (if \<not> (case contentType c of None \<Rightarrow> False | Some t \<Rightarrow> str_includes t ''application/json'')
      then (createJsonRpcErrorResponse (Some JNull) InvalidRequest txt_need_json, st)
      else case reqJson c of
        None \<Rightarrow> (createJsonRpcErrorResponse (Some JNull) ParseError txt_parse_failed, st)
      | Some (JArr messages) \<Rightarrow>
          (case processAll reg st c messages of
             (responses, st') \<Rightarrow>
               (\<lparr>status = 200, resp_body = Many (map the (filter (\<lambda>r. r \<noteq> None) responses))\<rparr>,
                st'))
      | Some message \<Rightarrow>
          (case processJsonRpcMessage reg st c message of
             (None, st') \<Rightarrow> (\<lparr>status = 204, resp_body = NoBody\<rparr>, st')
           | (Some response, st') \<Rightarrow> (\<lparr>status = 200, resp_body = One response\<rparr>, st')))"

text \<open>Example requests and their surroundings.\<close>

definition exampleRegistry :: ToolRegistry where
  "exampleRegistry = \<lparr>listTools = [], callToolText = (\<lambda>toolName args. Inr (True, ''ok''))\<rparr>"

definition exampleContext :: "json \<Rightarrow> Context" where
  "exampleContext b =
     \<lparr>contentType = Some ''application/json'', sessionHeader = None,
      MCP_SERVER_NAME = None, MCP_SERVER_VERSION = None, reqJson = Some b,
      clock = 0, isoTime = ''1970-01-01T00:00:00.000Z'',
      randomUUID = (\<lambda>n. ''uuid-'' @ show_nat n)\<rparr>"

definition noSessions :: HandlerState where
  "noSessions = \<lparr>http_sessions = [], uuidsDrawn = 0\<rparr>"

definition request :: "json \<Rightarrow> string \<Rightarrow> json" where
  "request i m = JObj [(''jsonrpc'', JStr ''2.0''), (''id'', i), (''method'', JStr m)]"

definition notification :: "string \<Rightarrow> json" where
  "notification m = JObj [(''jsonrpc'', JStr ''2.0''), (''method'', JStr m)]"



text \<open>
  The ids a response carries, and the validation rule of the specification: the
  protocol tag is \<open>2.0\<close> and the message carries a method, a result or an error.
\<close>

definition response_ids :: "HttpResponse \<Rightarrow> json list" where
  "response_ids r = (case resp_body r of NoBody \<Rightarrow> [] | One m \<Rightarrow> [rpc_id m]
                     | Many ms \<Rightarrow> map rpc_id ms)"

definition valid_message :: "json \<Rightarrow> bool" where
  "valid_message m = (get_prop m ''jsonrpc'' = Some (JStr ''2.0'')
     \<and> (get_prop m ''method'' \<noteq> None \<or> get_prop m ''result'' \<noteq> None
          \<or> get_prop m ''error'' \<noteq> None))"

section \<open>Properties of the authentication check\<close>

text \<open>
  C10. Authentication fails closed: when \<open>MCP_API_TOKEN\<close> is not configured (the
  binding is unset, or set to the empty string, which JavaScript treats alike),
  \<open>verifyApiToken\<close> returns false for every token argument, \<open>null\<close> and
  well-formed Bearer tokens included.
\<close>

theorem verifyApiToken_fails_closed:
  assumes "MCP_API_TOKEN env = None \<or> MCP_API_TOKEN env = Some []"
  shows "verifyApiToken env token = False"
  using assms by (auto simp: verifyApiToken_def falsy_str_def)

theorem verifyApiToken_fails_closed_witness:
  "MCP_API_TOKEN \<lparr>MCP_API_TOKEN = None, AUTH_REQUIRED = None\<rparr> = None
   \<and> verifyApiToken \<lparr>MCP_API_TOKEN = None, AUTH_REQUIRED = None\<rparr> (Some ''Bearer secret'') = False
   \<and> verifyApiToken \<lparr>MCP_API_TOKEN = None, AUTH_REQUIRED = None\<rparr> None = False"
  using verifyApiToken_fails_closed
    [of "\<lparr>MCP_API_TOKEN = None, AUTH_REQUIRED = None\<rparr>" "Some ''Bearer secret''"]
    verifyApiToken_fails_closed
    [of "\<lparr>MCP_API_TOKEN = None, AUTH_REQUIRED = None\<rparr>" None]
  by simp

section \<open>Properties of the rate limiter\<close>

subsection \<open>Arithmetic of the endpoint coefficients\<close>

lemma floor_six: "\<lfloor>rat_of_int m / 6\<rfloor> = m div 6"
  by (metis floor_divide_of_int_eq of_int_numeral)

lemma floor_08: "\<lfloor>rat_of_int m * (8 / 10)\<rfloor> = (8 * m) div 10"
proof -
  have "rat_of_int m * (8 / 10) = rat_of_int (8 * m) / rat_of_int 10" by simp
  then show ?thesis by (metis floor_divide_of_int_eq)
qed

lemma floor_03: "\<lfloor>rat_of_int m * (3 / 10)\<rfloor> = (3 * m) div 10"
proof -
  have "rat_of_int m * (3 / 10) = rat_of_int (3 * m) / rat_of_int 10" by simp
  then show ?thesis by (metis floor_divide_of_int_eq)
qed

lemma getEndpointConfig_div:
  "getEndpointConfig rl endpoint =
     (if endpoint = ''/admin'' then
        emptyPartial\<lparr>p_maxRequests := Some (maxRequests (config rl) div 6),
                      p_windowMs := Some (windowMs (config rl))\<rparr>
      else if endpoint = ''/mcp/tools/call'' then
        emptyPartial\<lparr>p_maxRequests := Some ((8 * maxRequests (config rl)) div 10),
                      p_windowMs := Some (windowMs (config rl))\<rparr>
      else if endpoint = ''/mcp/tools'' then
        emptyPartial\<lparr>p_maxRequests := Some ((3 * maxRequests (config rl)) div 10),
                      p_windowMs := Some (windowMs (config rl))\<rparr>
      else emptyPartial)"
  unfolding getEndpointConfig_def floor_six floor_08 floor_03 by (rule refl)

lemma effectiveConfig_div:
  "effectiveConfig baseConfig endpoint =
     baseConfig\<lparr>maxRequests :=
       (if endpoint = ''/admin'' then maxRequests baseConfig div 6
        else if endpoint = ''/mcp/tools/call'' then (8 * maxRequests baseConfig) div 10
        else if endpoint = ''/mcp/tools'' then (3 * maxRequests baseConfig) div 10
        else maxRequests baseConfig)\<rparr>"
  unfolding effectiveConfig_def floor_six
    mult.commute[of "8 / 10" "rat_of_int (maxRequests baseConfig)"]
    mult.commute[of "3 / 10" "rat_of_int (maxRequests baseConfig)"] floor_08 floor_03
  by (rule refl)

lemma applyEndpointConfig_effective:
  "config (applyEndpointConfig rl endpoint) = effectiveConfig (config rl) endpoint"
  by (simp add: applyEndpointConfig_def getEndpointConfig_div assign_def effectiveConfig_div
      emptyPartial_def)

subsection \<open>One check, inside a window and at the start of one\<close>

lemma isRateLimited_in_window:
  assumes "enabled (config rl)"
    and "records rl (generateKey cid ep) = Some r"
    and "now < resetTime r"
  shows "isRateLimited rl cid ep now =
    (if maxRequests (config rl) < count r + 1
     then (\<lparr>limited = True, rec = r\<lparr>count := count r + 1, blocked := True\<rparr>,
            retryAfter = Some \<lceil>rat_of_int (resetTime r - now) / 1000\<rceil>\<rparr>,
           rl\<lparr>records := (records rl)(generateKey cid ep \<mapsto> r\<lparr>count := count r + 1, blocked := True\<rparr>)\<rparr>)
     else (\<lparr>limited = False, rec = r\<lparr>count := count r + 1\<rparr>, retryAfter = None\<rparr>,
           rl\<lparr>records := (records rl)(generateKey cid ep \<mapsto> r\<lparr>count := count r + 1\<rparr>)\<rparr>))"
  using assms by (simp add: isRateLimited_def Let_def)

lemma isRateLimited_fresh:
  assumes "enabled (config rl)"
    and "case records rl (generateKey cid ep) of None \<Rightarrow> True | Some r \<Rightarrow> resetTime r \<le> now"
  shows "isRateLimited rl cid ep now =
    (if maxRequests (config rl) < 1
     then (\<lparr>limited = True,
            rec = \<lparr>count = 1, resetTime = now + windowMs (config rl), blocked = True\<rparr>,
            retryAfter = Some \<lceil>rat_of_int (windowMs (config rl)) / 1000\<rceil>\<rparr>,
           rl\<lparr>records := (records rl)(generateKey cid ep \<mapsto>
              \<lparr>count = 1, resetTime = now + windowMs (config rl), blocked = True\<rparr>)\<rparr>)
     else (\<lparr>limited = False,
            rec = \<lparr>count = 1, resetTime = now + windowMs (config rl), blocked = False\<rparr>,
            retryAfter = None\<rparr>,
           rl\<lparr>records := (records rl)(generateKey cid ep \<mapsto>
              \<lparr>count = 1, resetTime = now + windowMs (config rl), blocked = False\<rparr>)\<rparr>))"
  using assms by (simp add: isRateLimited_def Let_def newRecord_def split: option.splits)

lemma runChecks_in_window:
  assumes "enabled (config rl)"
    and "records rl (generateKey cid ep) = Some r"
    and "\<forall>t \<in> set ts. t < resetTime r"
    and "i < length ts"
  shows "i < length (runChecks rl cid ep ts)
     \<and> limited (runChecks rl cid ep ts ! i) = (maxRequests (config rl) < count r + int i + 1)
     \<and> retryAfter (runChecks rl cid ep ts ! i) =
         (if maxRequests (config rl) < count r + int i + 1
          then Some \<lceil>rat_of_int (resetTime r - ts ! i) / 1000\<rceil> else None)
     \<and> count (rec (runChecks rl cid ep ts ! i)) = count r + int i + 1
     \<and> resetTime (rec (runChecks rl cid ep ts ! i)) = resetTime r"
  using assms
proof (induction ts arbitrary: rl r i)
  case Nil
  then show ?case by simp
next
  case (Cons t ts)
  have step: "isRateLimited rl cid ep t =
    (if maxRequests (config rl) < count r + 1
     then (\<lparr>limited = True, rec = r\<lparr>count := count r + 1, blocked := True\<rparr>,
            retryAfter = Some \<lceil>rat_of_int (resetTime r - t) / 1000\<rceil>\<rparr>,
           rl\<lparr>records := (records rl)(generateKey cid ep \<mapsto> r\<lparr>count := count r + 1, blocked := True\<rparr>)\<rparr>)
     else (\<lparr>limited = False, rec = r\<lparr>count := count r + 1\<rparr>, retryAfter = None\<rparr>,
           rl\<lparr>records := (records rl)(generateKey cid ep \<mapsto> r\<lparr>count := count r + 1\<rparr>)\<rparr>))"
    using Cons.prems by (intro isRateLimited_in_window) auto
  show ?case
  proof (cases i)
    case 0
    then show ?thesis using step by (simp split: if_splits)
  next
    case (Suc j)
    obtain res rl' where st: "isRateLimited rl cid ep t = (res, rl')"
      by (cases "isRateLimited rl cid ep t")
    obtain r' where r': "records rl' (generateKey cid ep) = Some r'"
      "count r' = count r + 1" "resetTime r' = resetTime r" "config rl' = config rl"
      using step st by (auto split: if_splits)
    have j: "j < length ts" using Suc Cons.prems by simp
    have "\<forall>t \<in> set ts. t < resetTime r'" using Cons.prems r' by simp
    from Cons.IH[OF _ r'(1) this j] Cons.prems r'
    have IH: "j < length (runChecks rl' cid ep ts)
     \<and> limited (runChecks rl' cid ep ts ! j) = (maxRequests (config rl) < count r + 1 + int j + 1)
     \<and> retryAfter (runChecks rl' cid ep ts ! j) =
         (if maxRequests (config rl) < count r + 1 + int j + 1
          then Some \<lceil>rat_of_int (resetTime r - ts ! j) / 1000\<rceil> else None)
     \<and> count (rec (runChecks rl' cid ep ts ! j)) = count r + 1 + int j + 1
     \<and> resetTime (rec (runChecks rl' cid ep ts ! j)) = resetTime r"
      by simp
    have arith: "count r + 1 + int j + 1 = count r + int (Suc j) + 1" by simp
    show ?thesis
      using IH unfolding arith Suc by (simp add: st)
  qed
qed

subsection \<open>The fixed window (C1)\<close>

text \<open>
  C1, as amended. When rate limiting is enabled, for every client/endpoint key with
  configured max \<open>m\<close> and window \<open>w\<close>: let the first check find no record, or a record
  with \<open>now >= resetTime\<close>; it starts a fresh window (the count is reset before the
  increment, so its record has count 1 and \<open>resetTime = t1 + w\<close>). For every
  sequence of checks inside that window (each at a clock reading below \<open>t1 + w\<close>),
  check number \<open>i + 1\<close> is limited exactly when \<open>i + 1 > m\<close>: checks 1 to \<open>m\<close> return
  \<open>limited = false\<close>, check \<open>m + 1\<close> and all later ones return \<open>limited = true\<close>
  with \<open>retryAfter = ceil((resetTime - now) / 1000) > 0\<close>.
\<close>

theorem isRateLimited_window:
  fixes m :: nat
  assumes en: "enabled (config rl)"
    and mx: "maxRequests (config rl) = int m"
    and fresh: "case records rl (generateKey cid ep) of
                  None \<Rightarrow> True | Some r \<Rightarrow> resetTime r \<le> t1"
    and win: "\<forall>t \<in> set (t1 # ts). t < t1 + windowMs (config rl)"
    and i: "i < length (t1 # ts)"
  shows "i < length (runChecks rl cid ep (t1 # ts))
     \<and> limited (runChecks rl cid ep (t1 # ts) ! i) = (m < i + 1)
     \<and> (m < i + 1 \<longrightarrow>
          retryAfter (runChecks rl cid ep (t1 # ts) ! i) =
            Some \<lceil>rat_of_int (t1 + windowMs (config rl) - (t1 # ts) ! i) / 1000\<rceil>
          \<and> 0 < \<lceil>rat_of_int (t1 + windowMs (config rl) - (t1 # ts) ! i) / 1000\<rceil>)
     \<and> count (rec (runChecks rl cid ep (t1 # ts) ! i)) = int i + 1
     \<and> resetTime (rec (runChecks rl cid ep (t1 # ts) ! i)) = t1 + windowMs (config rl)"
proof -
  let ?w = "windowMs (config rl)"
  have step: "isRateLimited rl cid ep t1 =
    (if maxRequests (config rl) < 1
     then (\<lparr>limited = True,
            rec = \<lparr>count = 1, resetTime = t1 + ?w, blocked = True\<rparr>,
            retryAfter = Some \<lceil>rat_of_int ?w / 1000\<rceil>\<rparr>,
           rl\<lparr>records := (records rl)(generateKey cid ep \<mapsto>
              \<lparr>count = 1, resetTime = t1 + ?w, blocked = True\<rparr>)\<rparr>)
     else (\<lparr>limited = False,
            rec = \<lparr>count = 1, resetTime = t1 + ?w, blocked = False\<rparr>,
            retryAfter = None\<rparr>,
           rl\<lparr>records := (records rl)(generateKey cid ep \<mapsto>
              \<lparr>count = 1, resetTime = t1 + ?w, blocked = False\<rparr>)\<rparr>))"
    using en fresh by (rule isRateLimited_fresh)
  have wpos: "0 < ?w" using win by simp
  show ?thesis
  proof (cases i)
    case 0
    then show ?thesis using step mx wpos by (simp split: if_splits)
  next
    case (Suc j)
    obtain res rl' where st: "isRateLimited rl cid ep t1 = (res, rl')"
      by (cases "isRateLimited rl cid ep t1")
    obtain r' where r': "records rl' (generateKey cid ep) = Some r'"
      "count r' = 1" "resetTime r' = t1 + ?w" "config rl' = config rl"
      using step st by (auto split: if_splits)
    have j: "j < length ts" using Suc i by simp
    have inw: "\<forall>t \<in> set ts. t < resetTime r'" using win r' by simp
    have en': "enabled (config rl')" using en r' by simp
    note R = runChecks_in_window[OF en' r'(1) inw j]
    have tj: "ts ! j < t1 + ?w" using win j by simp
    then have pos: "0 < \<lceil>rat_of_int (t1 + ?w - ts ! j) / 1000\<rceil>" by simp
    have lim: "(int m < 1 + int j + 1) = (m < Suc j + 1)" by linarith
    show ?thesis
      using R pos lim unfolding Suc by (simp add: st r' mx)
  qed
qed


text \<open>
  The example of the specification: max 2, window 60000 ms, client \<open>A\<close>, endpoint
  \<open>/mcp/tools/call\<close>; checks 1 and 2 pass, check 3 is limited.
\<close>

theorem isRateLimited_window_witness:
  "enabled (config rl0) \<and> maxRequests (config rl0) = int 2
   \<and> (case records rl0 (generateKey ''A'' (Some ''/mcp/tools/call'')) of
         None \<Rightarrow> True | Some r \<Rightarrow> resetTime r \<le> 1000)
   \<and> 1000 < 1000 + windowMs (config rl0) \<and> 2000 < 1000 + windowMs (config rl0)
   \<and> 3000 < 1000 + windowMs (config rl0)
   \<and> limited (runChecks rl0 ''A'' (Some ''/mcp/tools/call'') [1000, 2000, 3000] ! 0) = False
   \<and> limited (runChecks rl0 ''A'' (Some ''/mcp/tools/call'') [1000, 2000, 3000] ! 1) = False
   \<and> limited (runChecks rl0 ''A'' (Some ''/mcp/tools/call'') [1000, 2000, 3000] ! 2) = True
   \<and> retryAfter (runChecks rl0 ''A'' (Some ''/mcp/tools/call'') [1000, 2000, 3000] ! 2) = Some 58"
proof -
  have h: "enabled (config rl0)" "maxRequests (config rl0) = int 2"
    "case records rl0 (generateKey ''A'' (Some ''/mcp/tools/call'')) of
         None \<Rightarrow> True | Some r \<Rightarrow> resetTime r \<le> 1000"
    "\<forall>t \<in> set (1000 # [2000, 3000]). t < 1000 + windowMs (config rl0)"
    by (simp_all add: rl0_def)
  have w: "windowMs (config rl0) = 60000" by (simp add: rl0_def)
  note T = isRateLimited_window[OF h]
  have "(0::nat) < length [1000, 2000, 3000::int]" "(1::nat) < length [1000, 2000, 3000::int]"
    "(2::nat) < length [1000, 2000, 3000::int]" by simp_all
  from T[OF this(1)] T[OF this(2)] T[OF this(3)] h show ?thesis
    by (simp add: w)
qed

text \<open>
  C1 as stated fails where the guard of lines 28-33 applies. With
  \<open>RATE_LIMIT_ENABLED = 'false'\<close> every check returns \<open>limited = false\<close>, also the
  third one within 60 seconds when the configured max is 2. And when the limiter
  of the example is disabled by \<open>updateConfig\<close> after two checks, the record of
  the key still shows the open window with count 2, and the third check inside
  that window is not limited.
\<close>

theorem isRateLimited_disabled_counterexample:
  "maxRequests (config rl_disabled) = 2 \<and> windowMs (config rl_disabled) = 60000
   \<and> limited (runChecks rl_disabled ''A'' (Some ''/mcp/tools/call'') [1000, 2000, 3000] ! 2) = False
   \<and> records (updateConfig (stateAfterChecks rl0 ''A'' (Some ''/mcp/tools/call'') [1000, 2000])
                 (emptyPartial\<lparr>p_enabled := Some False\<rparr>))
         (generateKey ''A'' (Some ''/mcp/tools/call''))
       = Some \<lparr>count = 2, resetTime = 61000, blocked = False\<rparr>
   \<and> limited (fst (isRateLimited
         (updateConfig (stateAfterChecks rl0 ''A'' (Some ''/mcp/tools/call'') [1000, 2000])
            (emptyPartial\<lparr>p_enabled := Some False\<rparr>))
         ''A'' (Some ''/mcp/tools/call'') 3000)) = False"
  by (simp add: rl_disabled_def rl0_def isRateLimited_def stateAfterChecks_def updateConfig_def
      assign_def emptyPartial_def generateKey_def newRecord_def Let_def)

subsection \<open>Endpoint overrides (C3)\<close>

text \<open>
  C3, as amended. For every clientId and endpoint, the endpoint-specific check
  returns the result, and leaves the records, of a check performed against the
  derived configuration whose max is \<open>floor(base/6)\<close> for \<open>/admin\<close>,
  \<open>floor(0.8*base)\<close> for \<open>/mcp/tools/call\<close>, \<open>floor(0.3*base)\<close> for
  \<open>/mcp/tools\<close> and the base max otherwise. The shared configuration is overwritten
  with that derived configuration while the inner check runs, and it has its value
  from before the call again once the call has returned.
\<close>

theorem isRateLimitedByEndpoint_derived:
  "isRateLimitedByEndpoint rl clientId endpoint now =
     (let (result, rl') = isRateLimited (rl\<lparr>config := effectiveConfig (config rl) endpoint\<rparr>)
                            clientId (Some endpoint) now
      in (result, rl'\<lparr>config := config rl\<rparr>))
   \<and> config (applyEndpointConfig rl endpoint) = effectiveConfig (config rl) endpoint
   \<and> config (snd (isRateLimitedByEndpoint rl clientId endpoint now)) = config rl"
proof -
  have a: "applyEndpointConfig rl endpoint = rl\<lparr>config := effectiveConfig (config rl) endpoint\<rparr>"
    using applyEndpointConfig_effective[of rl endpoint]
    by (simp add: applyEndpointConfig_def)
  show ?thesis
    by (simp add: isRateLimitedByEndpoint_def a Let_def split: prod.splits)
qed

text \<open>
  C3 as stated fails in its frame part: the shared configuration is not identical
  at every point of the check. With the default max 60 and endpoint \<open>/admin\<close>, the
  configuration that line 160 runs on has max 10.
\<close>

theorem isRateLimitedByEndpoint_mutates_counterexample:
  "maxRequests (config rl_default) = 60
   \<and> maxRequests (config (applyEndpointConfig rl_default ''/admin'')) = 10
   \<and> config (applyEndpointConfig rl_default ''/admin'') \<noteq> config rl_default"
  by (simp add: rl_default_def applyEndpointConfig_def getEndpointConfig_div assign_def
      emptyPartial_def)

section \<open>Properties of the cache\<close>

subsection \<open>Reading back what \<open>set\<close> wrote\<close>

text \<open>
  A whole number written in decimal digits is what the pattern of \<open>get\<close> matches
  and \<open>parseInt\<close> reads back, whether or not \<open>stale-while-revalidate\<close> follows.
\<close>

lemma is_digit_digit_char: "d < 10 \<Longrightarrow> is_digit (digit_char d)"
  by (simp add: is_digit_def digit_char_def)

lemma digit_value: "d < 10 \<Longrightarrow> (of_char (digit_char d) :: nat) - 48 = d"
  by (simp add: digit_char_def)

lemma show_nat_digits: "\<forall>c \<in> set (show_nat n). is_digit c"
proof (induction n rule: show_nat.induct)
  case (1 n)
  show ?case
  proof (cases "n < 10")
    case True
    then show ?thesis by (simp add: show_nat.simps[of n] is_digit_digit_char)
  next
    case False
    have "n mod 10 < 10" by simp
    then have "is_digit (digit_char (n mod 10))" by (rule is_digit_digit_char)
    with False "1.IH" show ?thesis by (simp add: show_nat.simps[of n])
  qed
qed

lemma show_nat_nonempty: "show_nat n \<noteq> []"
  by (simp add: show_nat.simps[of n])

lemma parseInt_snoc: "parseInt (ds @ [c]) = 10 * parseInt ds + (of_char c - 48)"
  by (simp add: parseInt_def)

lemma parseInt_show_nat: "parseInt (show_nat n) = n"
proof (induction n rule: show_nat.induct)
  case (1 n)
  show ?case
  proof (cases "n < 10")
    case True
    then show ?thesis by (simp add: show_nat.simps[of n] parseInt_def digit_value)
  next
    case False
    have "parseInt (show_nat n) = 10 * parseInt (show_nat (n div 10))
            + (of_char (digit_char (n mod 10)) - 48)"
      using False by (simp add: show_nat.simps[of n] parseInt_snoc)
    also have "\<dots> = 10 * (n div 10) + n mod 10"
      using "1.IH" False by (simp add: digit_value)
    finally show ?thesis by simp
  qed
qed

lemma takeWhile_digits:
  assumes "\<forall>c \<in> set ds. is_digit c" and "\<not> is_digit x"
  shows "takeWhile is_digit (ds @ x # rest) = ds"
  using assms by (simp add: takeWhile_append2)

lemma not_digit_comma: "\<not> is_digit CHR '',''"
  by (simp add: is_digit_def)

lemma match_max_age_digits:
  assumes "\<forall>c \<in> set ds. is_digit c" and "ds \<noteq> []"
  shows "match_max_age (''max-age='' @ ds @ CHR '','' # rest) = Some ds"
proof -
  have d: "drop 8 (''max-age='' @ ds @ CHR '','' # rest) = ds @ CHR '','' # rest" by simp
  have p: "prefix ''max-age='' (''max-age='' @ ds @ CHR '','' # rest)" by simp
  have t: "takeWhile is_digit (ds @ CHR '','' # rest) = ds"
    using assms(1) not_digit_comma by (rule takeWhile_digits)
  have "''max-age='' @ ds @ CHR '','' # rest = CHR ''m'' # (''ax-age='' @ ds @ CHR '','' # rest)"
    by simp
  then show ?thesis using d p t assms(2)
    by (simp only: match_max_age.simps if_True simp_thms)
qed

lemma match_header:
  assumes "numberText t = show_nat T"
  shows "match_max_age (cacheControlHeader numberText cm t) = Some (show_nat T)"
proof -
  have m: "match_max_age (''max-age='' @ show_nat T @ CHR '','' # rest) = Some (show_nat T)" for rest
    using show_nat_digits show_nat_nonempty by (rule match_max_age_digits)
  have plain: "''max-age='' @ numberText t @ '', public''
      = ''max-age='' @ show_nat T @ CHR '','' # '' public''"
    by (simp add: assms)
  have stale: "''max-age='' @ numberText t @ '', stale-while-revalidate='' @ x @ '', public''
      = ''max-age='' @ show_nat T @ CHR '','' # ('' stale-while-revalidate='' @ x @ '', public'')"
    for x by (simp add: assms)
  show ?thesis
  proof (cases "staleWhileRevalidate (cm_config cm)")
    case None
    then have "cacheControlHeader numberText cm t
        = ''max-age='' @ show_nat T @ CHR '','' # '' public''"
      using plain by (simp add: cacheControlHeader_def)
    then show ?thesis by (simp only: m)
  next
    case (Some s)
    show ?thesis
    proof (cases "number_truthy s")
      case True
      with Some have "cacheControlHeader numberText cm t
          = ''max-age='' @ show_nat T @ CHR '','' #
              ('' stale-while-revalidate='' @ numberText s @ '', public'')"
        using stale[of "numberText s"] by (simp add: cacheControlHeader_def)
      then show ?thesis by (simp only: m)
    next
      case False
      with Some have "cacheControlHeader numberText cm t
          = ''max-age='' @ show_nat T @ CHR '','' # '' public''"
        using plain by (simp add: cacheControlHeader_def)
      then show ?thesis by (simp only: m)
    qed
  qed
qed

lemma age_gt: "(rat_of_int d / 1000 > rat_of_nat m) = (d > 1000 * int m)"
proof -
  have "(rat_of_int d / 1000 > rat_of_nat m) = (rat_of_int d > rat_of_int (1000 * int m))"
    by (simp add: field_simps)
  also have "\<dots> = (d > 1000 * int m)" by (simp only: of_int_less_iff)
  finally show ?thesis .
qed

lemma get_simp:
  "get cm c key now =
     (if \<not> c_enabled (cm_config cm) then (VNull, c)
      else case c (requestOf cm key) of
        None \<Rightarrow> (VNull, c)
      | Some response \<Rightarrow>
          if (case (date response, match_max_age (cacheControl response)) of
                (Some d, Some digits) \<Rightarrow> now - d > 1000 * int (parseInt digits)
              | _ \<Rightarrow> False)
          then (VNull, c(requestOf cm key := None))
          else (case body response of None \<Rightarrow> (VNull, c) | Some data \<Rightarrow> (data, c)))"
  by (simp add: get_def Let_def age_gt delete_def split: option.splits)

lemma get_written:
  assumes "c_enabled (cm_config cm)"
    and "c (requestOf cm key) = Some \<lparr>body = b, date = Some d, cacheControl = h\<rparr>"
    and "match_max_age h = Some (show_nat T)"
  shows "get cm c key now =
     (if now - d > 1000 * int T then (VNull, c(requestOf cm key := None))
      else (case b of None \<Rightarrow> (VNull, c) | Some data \<Rightarrow> (data, c)))"
  using assms by (simp add: get_simp parseInt_show_nat)

lemma set_cache_enabled:
  "c_enabled (cm_config cm) \<Longrightarrow>
   set_cache numberText cm c key data ttl now =
     (case stringify data of
        Threw \<Rightarrow> (False, c)
      | NoText \<Rightarrow>
          (True, c(requestOf cm key \<mapsto>
             \<lparr>body = None, date = Some (dateHeaderMs now),
              cacheControl = cacheControlHeader numberText cm (cacheTtl cm ttl)\<rparr>))
      | Text v \<Rightarrow>
          (True, c(requestOf cm key \<mapsto>
             \<lparr>body = Some v, date = Some (dateHeaderMs now),
              cacheControl = cacheControlHeader numberText cm (cacheTtl cm ttl)\<rparr>)))"
  by (simp add: set_cache_def Let_def)

lemma dateHeaderMs_le: "dateHeaderMs t \<le> t"
proof -
  have "t = (t div 1000) * 1000 + t mod 1000" by simp
  moreover have "0 \<le> t mod 1000" by simp
  ultimately show ?thesis unfolding dateHeaderMs_def by linarith
qed

lemma dateHeaderMs_gt: "t - 1000 < dateHeaderMs t"
proof -
  have "t = (t div 1000) * 1000 + t mod 1000" by simp
  moreover have "t mod 1000 < 1000" by simp
  ultimately show ?thesis unfolding dateHeaderMs_def by linarith
qed

lemma get_disabled: "\<not> c_enabled (cm_config cm) \<Longrightarrow> get cm c key now = (VNull, c)"
  by (simp add: get_simp)

lemma get_null_body:
  assumes "c (requestOf cm key) = Some e" and "body e = Some VNull"
  shows "fst (get cm c key now) = VNull"
  using assms by (simp add: get_simp split: option.splits)

lemma getOrSet_miss:
  assumes "fst (get cm (store st) key now) = VNull"
  shows "getOrSet numberText cm st key f ttl now now' =
     (case f (fetchCalls st) of
        Inl err \<Rightarrow> (Inl err, \<lparr>store = snd (get cm (store st) key now),
                               fetchCalls = Suc (fetchCalls st)\<rparr>)
      | Inr data \<Rightarrow>
          (Inr data,
           \<lparr>store = snd (set_cache numberText cm (snd (get cm (store st) key now)) key data ttl now'),
            fetchCalls = Suc (fetchCalls st)\<rparr>))"
proof -
  obtain a b where g: "get cm (store st) key now = (a, b)"
    by (cases "get cm (store st) key now")
  with assms have a: "a = VNull" by simp
  show ?thesis unfolding getOrSet_def g a by (simp split: sum.splits)
qed

lemma getOrSet_hit:
  assumes "fst (get cm (store st) key now) \<noteq> VNull"
  shows "getOrSet numberText cm st key f ttl now now' =
     (Inr (fst (get cm (store st) key now)), st\<lparr>store := snd (get cm (store st) key now)\<rparr>)"
proof -
  obtain a b where g: "get cm (store st) key now = (a, b)"
    by (cases "get cm (store st) key now")
  with assms have a: "a \<noteq> VNull" by simp
  show ?thesis unfolding getOrSet_def g using a by simp
qed

lemma getOrSet_calls:
  "fetchCalls (snd (getOrSet numberText cm st key f ttl now now')) =
     (if fst (get cm (store st) key now) = VNull then Suc (fetchCalls st) else fetchCalls st)"
  by (simp add: getOrSet_miss getOrSet_hit split: sum.splits)

lemma stringify_null: "stringify VNull = Text VNull"
  by (simp add: stringify_def)

lemma decimalText_nat: "decimalText (Num (rat_of_nat T)) = show_nat T"
proof -
  have "\<lfloor>rat_of_nat T\<rfloor> = int T" by simp
  then show ?thesis by (simp add: decimalText_def show_int_def)
qed

lemma payload_roundtrip: "stringify payload = Text payload"
  by (simp add: stringify_def payload_def)

lemma twice_null:
  "getOrSet_twice cm0 (\<lambda>n. Inr VNull) (Some (Num 60)) 0 10 = (Inr VNull, Inr VNull, 2)"
  by code_simp

lemma twice_truncated:
  "getOrSet_twice cm0 (\<lambda>n. Inr (VNumber (Num (rat_of_nat n)))) (Some (Num 1)) 1999 2500
     = (Inr (VNumber (Num 0)), Inr (VNumber (Num 1)), 2)"
  by code_simp

lemma twice_disabled:
  "getOrSet_twice cm_off (\<lambda>n. Inr (VNumber (Num (rat_of_nat n)))) (Some (Num 60)) 0 10
     = (Inr (VNumber (Num 0)), Inr (VNumber (Num 1)), 2)"
  by code_simp

lemma twice_undefined:
  "getOrSet_twice cm0 (\<lambda>n. Inr VUndefined) (Some (Num 60)) 0 10
     = (Inr VUndefined, Inr VUndefined, 2)"
  by code_simp

lemma twice_fraction:
  "getOrSet_twice cm0 (\<lambda>n. Inr (VNumber (Num (rat_of_nat n)))) (Some (Num (3 / 2))) 1000 2200
     = (Inr (VNumber (Num 0)), Inr (VNumber (Num 1)), 2)"
  by code_simp

lemma twice_nan:
  "getOrSet_twice cm0 (\<lambda>n. Inr (VObject [(''v'', VNumber NaN)])) (Some (Num 60)) 0 10
     = (Inr (VObject [(''v'', VNumber NaN)]), Inr (VObject [(''v'', VNull)]), 1)"
  by code_simp

lemma twice_negative:
  "getOrSet_twice cm0 (\<lambda>n. Inr (VNumber (Num (rat_of_nat n)))) (Some (Num (- 5))) 0 10000
     = (Inr (VNumber (Num 0)), Inr (VNumber (Num 0)), 1)"
  by code_simp


lemma get_after_set:
  assumes en: "c_enabled (cm_config cm)"
    and whole: "cacheTtl cm ttl = Num (rat_of_nat T)"
    and shown: "numberText (Num (rat_of_nat T)) = show_nat T"
    and ok: "stringify v \<noteq> Threw"
  shows "get cm (snd (set_cache numberText cm c key v ttl tw)) key now =
     (if now - dateHeaderMs tw > 1000 * int T
      then (VNull, (snd (set_cache numberText cm c key v ttl tw))(requestOf cm key := None))
      else (case stringify v of Text w \<Rightarrow> w | _ \<Rightarrow> VNull,
            snd (set_cache numberText cm c key v ttl tw)))"
proof -
  let ?h = "cacheControlHeader numberText cm (cacheTtl cm ttl)"
  have mh: "match_max_age ?h = Some (show_nat T)"
    using shown unfolding whole by (rule match_header)
  show ?thesis
  proof (cases "stringify v")
    case Threw
    with ok show ?thesis by simp
  next
    case NoText
    let ?c = "c(requestOf cm key \<mapsto> \<lparr>body = None, date = Some (dateHeaderMs tw), cacheControl = ?h\<rparr>)"
    have s: "snd (set_cache numberText cm c key v ttl tw) = ?c"
      using en NoText by (simp add: set_cache_enabled)
    have e: "?c (requestOf cm key)
        = Some \<lparr>body = None, date = Some (dateHeaderMs tw), cacheControl = ?h\<rparr>" by simp
    show ?thesis unfolding s
      using get_written[where c = ?c and key = key and now = now, OF en e mh] NoText by simp
  next
    case (Text w)
    let ?c = "c(requestOf cm key \<mapsto> \<lparr>body = Some w, date = Some (dateHeaderMs tw), cacheControl = ?h\<rparr>)"
    have s: "snd (set_cache numberText cm c key v ttl tw) = ?c"
      using en Text by (simp add: set_cache_enabled)
    have e: "?c (requestOf cm key)
        = Some \<lparr>body = Some w, date = Some (dateHeaderMs tw), cacheControl = ?h\<rparr>" by simp
    show ?thesis unfolding s
      using get_written[where c = ?c and key = key and now = now, OF en e mh] Text by simp
  qed
qed

lemma ttl_one_any: "cacheTtl cm (Some (Num 1)) = Num (rat_of_nat 1)"
  by (simp add: cacheTtl_def number_truthy_def)

lemma payload_not_thrown: "stringify payload \<noteq> Threw"
  by (simp add: payload_roundtrip)

lemma entry0_max_age: "match_max_age (cacheControl entry0) = Some ''1''"
  by code_simp

lemma parseInt_one: "parseInt ''1'' = 1"
  by code_simp

lemma decimalText_one: "decimalText (Num 1) = show_nat 1"
  using decimalText_nat[of 1] by simp

lemma disabled_set_get:
  "fst (get cm_off (snd (set_cache decimalText cm_off Map.empty ''k'' payload (Some (Num 1)) 5999))
          ''k'' 5999) = VNull"
  by code_simp

lemma truncated_set_get:
  "fst (get cm0 (snd (set_cache decimalText cm0 Map.empty ''k'' payload (Some (Num 1)) 5999))
          ''k'' 6001) = VNull"
  by code_simp

lemma negative_set_get:
  "fst (get cm0 (snd (set_cache decimalText cm0 Map.empty ''k'' payload (Some (Num (- 5))) 0))
          ''k'' 10000) = payload"
  by code_simp

subsection \<open>A null payload is never a hit (C9)\<close>

text \<open>
  C9. If the fetch function passed to \<open>getOrSet\<close> is invoked and resolves to
  \<open>null\<close>, then \<open>getOrSet\<close> returns \<open>null\<close>, and the stored \<open>null\<close> is never
  served as a hit: at every later time (within the ttl or not) \<open>get\<close> for the key
  returns \<open>null\<close> as for a miss, and every later \<open>getOrSet\<close> for the key invokes
  its fetch function again and returns that invocation's outcome.
\<close>

theorem getOrSet_null_not_served:
  assumes call: "getOrSet numberText cm st key f ttl now now' = (res, st1)"
    and invoked: "fetchCalls st1 = Suc (fetchCalls st)"
    and null: "f (fetchCalls st) = Inr VNull"
  shows "res = Inr VNull
     \<and> (\<forall>u. fst (get cm (store st1) key u) = VNull)
     \<and> (\<forall>numberText2 g ttl2 u u'.
           fetchCalls (snd (getOrSet numberText2 cm st1 key g ttl2 u u')) = Suc (fetchCalls st1)
           \<and> fst (getOrSet numberText2 cm st1 key g ttl2 u u') = g (fetchCalls st1))"
proof -
  have miss: "fst (get cm (store st) key now) = VNull"
  proof (rule ccontr)
    assume "fst (get cm (store st) key now) \<noteq> VNull"
    then have "fetchCalls (snd (getOrSet numberText cm st key f ttl now now')) = fetchCalls st"
      by (simp add: getOrSet_calls)
    then show False using call invoked by simp
  qed
  let ?c1 = "snd (get cm (store st) key now)"
  have eq: "(res, st1) =
     (Inr VNull, \<lparr>store = snd (set_cache numberText cm ?c1 key VNull ttl now'),
                  fetchCalls = Suc (fetchCalls st)\<rparr>)"
    using getOrSet_miss[OF miss, of numberText f ttl now'] call null by simp
  then have res: "res = Inr VNull"
    and st1: "store st1 = snd (set_cache numberText cm ?c1 key VNull ttl now')" by simp_all
  have after: "fst (get cm (store st1) key u) = VNull" for u
  proof (cases "c_enabled (cm_config cm)")
    case True
    then show ?thesis unfolding st1
      by (simp add: set_cache_enabled stringify_null get_simp split: option.splits)
  next
    case False
    then show ?thesis by (simp add: get_disabled)
  qed
  have again: "fetchCalls (snd (getOrSet numberText2 cm st1 key g ttl2 u u')) = Suc (fetchCalls st1)
           \<and> fst (getOrSet numberText2 cm st1 key g ttl2 u u') = g (fetchCalls st1)"
    for numberText2 g ttl2 u u'
    using after[of u] by (simp add: getOrSet_miss split: sum.splits)
  show ?thesis using res after again by blast
qed

text \<open>
  At the enabled example manager: a fetch function resolving to \<open>null\<close> with ttl
  60 s at time 0; 10 ms later \<open>get\<close> misses and a second \<open>getOrSet\<close> fetches again.
\<close>

theorem getOrSet_null_not_served_witness:
  "getOrSet decimalText cm0 st0 ''k'' (\<lambda>n. Inr VNull) (Some (Num 60)) 0 0
     = (Inr VNull, snd (getOrSet decimalText cm0 st0 ''k'' (\<lambda>n. Inr VNull) (Some (Num 60)) 0 0))
   \<and> fetchCalls (snd (getOrSet decimalText cm0 st0 ''k'' (\<lambda>n. Inr VNull) (Some (Num 60)) 0 0))
       = Suc (fetchCalls st0)
   \<and> fst (get cm0 (store (snd (getOrSet decimalText cm0 st0 ''k'' (\<lambda>n. Inr VNull) (Some (Num 60)) 0 0)))
        ''k'' 10) = VNull
   \<and> fetchCalls (snd (getOrSet decimalText cm0
         (snd (getOrSet decimalText cm0 st0 ''k'' (\<lambda>n. Inr VNull) (Some (Num 60)) 0 0))
         ''k'' (\<lambda>n. Inr payload) (Some (Num 60)) 10 10)) = 2"
proof -
  let ?f = "\<lambda>n::nat. (Inr VNull :: string + jsvalue)"
  let ?r = "getOrSet decimalText cm0 st0 ''k'' ?f (Some (Num 60)) 0 0"
  have miss: "fst (get cm0 (store st0) ''k'' 0) = VNull"
    by (simp add: get_simp st0_def)
  have call: "?r = (fst ?r, snd ?r)" by simp
  have inv: "fetchCalls (snd ?r) = Suc (fetchCalls st0)"
    by (simp add: getOrSet_calls miss)
  have null: "?f (fetchCalls st0) = Inr VNull" by simp
  note T = getOrSet_null_not_served[OF call inv null]
  from T have a: "fst ?r = Inr VNull" by blast
  from T have b: "fst (get cm0 (store (snd ?r)) ''k'' 10) = VNull" by blast
  from T have c: "fetchCalls (snd (getOrSet decimalText cm0 (snd ?r) ''k'' (\<lambda>n. Inr payload) (Some (Num 60)) 10 10))
       = Suc (fetchCalls (snd ?r))" by blast
  have d: "?r = (Inr VNull, snd ?r)" using a by (metis call)
  show ?thesis using d inv b c by (simp add: st0_def)
qed


subsection \<open>De-duplication within the time-to-live (C5)\<close>

text \<open>
  C5, as amended. With the cache enabled, let a call of \<open>getOrSet(key, fetchFn, ttl)\<close>
  miss and its fetch function resolve to a payload \<open>v\<close> other than \<open>null\<close> that
  JSON carries unchanged (\<open>JSON.stringify\<close> gives a text that parses back to
  \<open>v\<close>: not \<open>undefined\<close>, no BigInt, no \<open>NaN\<close> or infinity and no \<open>undefined\<close>
  inside); the call returns \<open>v\<close> after one invocation. Let the effective ttl
  (\<open>ttl\<close>, or the configured default when \<open>ttl\<close> is absent, 0 or \<open>NaN\<close>) be a whole
  number \<open>T \<ge> 0\<close> of seconds, written in decimal digits in the header. A second
  call for the key made no later than \<open>T\<close> seconds after the start of the clock
  second of the write returns the identical payload and invokes no fetch function
  (one invocation in total, state unchanged). A call made more than \<open>T\<close> seconds
  after the write treats the entry as absent: it invokes its fetch function again
  and returns that outcome.
\<close>

theorem getOrSet_within_ttl:
  assumes en: "c_enabled (cm_config cm)"
    and miss: "fst (get cm (store st) key t1) = VNull"
    and f: "f (fetchCalls st) = Inr v"
    and rt: "stringify v = Text v"
    and nn: "v \<noteq> VNull"
    and whole: "cacheTtl cm ttl = Num (rat_of_nat T)"
    and shown: "numberText (Num (rat_of_nat T)) = show_nat T"
    and first: "getOrSet numberText cm st key f ttl t1 t1' = (res1, st1)"
  shows "res1 = Inr v \<and> fetchCalls st1 = Suc (fetchCalls st)
     \<and> (\<forall>numberText2 g ttl2 t2 t2'. t2 - dateHeaderMs t1' \<le> 1000 * int T \<longrightarrow>
           getOrSet numberText2 cm st1 key g ttl2 t2 t2' = (Inr v, st1))
     \<and> (\<forall>numberText2 g ttl2 t3 t3'. t3 - t1' > 1000 * int T \<longrightarrow>
           fst (getOrSet numberText2 cm st1 key g ttl2 t3 t3') = g (Suc (fetchCalls st))
           \<and> fetchCalls (snd (getOrSet numberText2 cm st1 key g ttl2 t3 t3'))
               = Suc (Suc (fetchCalls st)))"
proof -
  let ?c1 = "snd (get cm (store st) key t1)"
  let ?h = "cacheControlHeader numberText cm (cacheTtl cm ttl)"
  let ?e = "\<lparr>body = Some v, date = Some (dateHeaderMs t1'), cacheControl = ?h\<rparr>"
  have mh: "match_max_age ?h = Some (show_nat T)"
    using shown unfolding whole by (rule match_header)
  have eq: "(res1, st1) =
     (Inr v, \<lparr>store = ?c1(requestOf cm key \<mapsto> ?e), fetchCalls = Suc (fetchCalls st)\<rparr>)"
    using getOrSet_miss[OF miss, of numberText f ttl t1'] first f en rt
    by (simp add: set_cache_enabled)
  then have res: "res1 = Inr v"
    and st1: "st1 = \<lparr>store = ?c1(requestOf cm key \<mapsto> ?e), fetchCalls = Suc (fetchCalls st)\<rparr>"
    by simp_all
  have entry: "store st1 (requestOf cm key) = Some ?e" by (simp add: st1)
  have rd: "get cm (store st1) key now =
     (if now - dateHeaderMs t1' > 1000 * int T then (VNull, (store st1)(requestOf cm key := None))
      else (v, store st1))" for now
    using get_written[where c = "store st1" and key = key and now = now, OF en entry mh] by simp
  have hit: "getOrSet numberText2 cm st1 key g ttl2 t2 t2' = (Inr v, st1)"
    if "t2 - dateHeaderMs t1' \<le> 1000 * int T" for numberText2 g ttl2 t2 t2'
  proof -
    have g: "get cm (store st1) key t2 = (v, store st1)"
      using that by (simp add: rd)
    show ?thesis using getOrSet_hit[of cm st1 key t2 numberText2 g ttl2 t2'] nn by (simp add: g)
  qed
  have expired: "fst (getOrSet numberText2 cm st1 key g ttl2 t3 t3') = g (Suc (fetchCalls st))
           \<and> fetchCalls (snd (getOrSet numberText2 cm st1 key g ttl2 t3 t3'))
               = Suc (Suc (fetchCalls st))"
    if "t3 - t1' > 1000 * int T" for numberText2 g ttl2 t3 t3'
  proof -
    have "dateHeaderMs t1' \<le> t1'" by (rule dateHeaderMs_le)
    with that have "t3 - dateHeaderMs t1' > 1000 * int T" by linarith
    then have g: "fst (get cm (store st1) key t3) = VNull"
      by (simp add: rd)
    have c: "fetchCalls st1 = Suc (fetchCalls st)" by (simp add: st1)
    show ?thesis using getOrSet_miss[OF g, of numberText2 g ttl2 t3'] c
      by (simp split: sum.splits)
  qed
  have c: "fetchCalls st1 = Suc (fetchCalls st)" by (simp add: st1)
  show ?thesis using res c hit expired by blast
qed

text \<open>
  At the enabled example manager with ttl 1 s: the first call at 1999 ms fetches
  \<open>{"v":1}\<close>; a call at 2000 ms, within 1 s of the start (1000 ms) of the clock
  second of the write, returns it without fetching; a call at 3000 ms fetches again.
\<close>

theorem getOrSet_within_ttl_witness:
  "c_enabled (cm_config cm0) \<and> fst (get cm0 (store st0) ''k'' 1999) = VNull
   \<and> stringify payload = Text payload \<and> payload \<noteq> VNull
   \<and> cacheTtl cm0 (Some (Num 1)) = Num (rat_of_nat 1)
   \<and> decimalText (Num (rat_of_nat 1)) = show_nat 1
   \<and> fst (getOrSet decimalText cm0 st0 ''k'' (\<lambda>n. Inr payload) (Some (Num 1)) 1999 1999) = Inr payload
   \<and> fetchCalls (snd (getOrSet decimalText cm0 st0 ''k'' (\<lambda>n. Inr payload) (Some (Num 1)) 1999 1999)) = 1
   \<and> fst (getOrSet decimalText cm0
        (snd (getOrSet decimalText cm0 st0 ''k'' (\<lambda>n. Inr payload) (Some (Num 1)) 1999 1999))
        ''k'' (\<lambda>n. Inr (VString ''other'')) (Some (Num 1)) 2000 2000) = Inr payload
   \<and> fetchCalls (snd (getOrSet decimalText cm0
        (snd (getOrSet decimalText cm0 st0 ''k'' (\<lambda>n. Inr payload) (Some (Num 1)) 1999 1999))
        ''k'' (\<lambda>n. Inr (VString ''other'')) (Some (Num 1)) 2000 2000)) = 1
   \<and> fst (getOrSet decimalText cm0
        (snd (getOrSet decimalText cm0 st0 ''k'' (\<lambda>n. Inr payload) (Some (Num 1)) 1999 1999))
        ''k'' (\<lambda>n. Inr (VString ''other'')) (Some (Num 1)) 3000 3000) = Inr (VString ''other'')
   \<and> fetchCalls (snd (getOrSet decimalText cm0
        (snd (getOrSet decimalText cm0 st0 ''k'' (\<lambda>n. Inr payload) (Some (Num 1)) 1999 1999))
        ''k'' (\<lambda>n. Inr (VString ''other'')) (Some (Num 1)) 3000 3000)) = 2"
proof -
  let ?f = "\<lambda>n::nat. (Inr payload :: string + jsvalue)"
  let ?g = "\<lambda>n::nat. (Inr (VString ''other'') :: string + jsvalue)"
  let ?r = "getOrSet decimalText cm0 st0 ''k'' ?f (Some (Num 1)) 1999 1999"
  have en: "c_enabled (cm_config cm0)" by (simp add: cm0_def)
  have miss: "fst (get cm0 (store st0) ''k'' 1999) = VNull" by (simp add: get_simp st0_def)
  have f: "?f (fetchCalls st0) = Inr payload" by simp
  have nn: "payload \<noteq> VNull" by (simp add: payload_def)
  have shown1: "decimalText (Num (rat_of_nat 1)) = show_nat 1" by (rule decimalText_nat)
  have call: "?r = (fst ?r, snd ?r)" by simp
  note T = getOrSet_within_ttl[OF en miss f payload_roundtrip nn ttl_one_any shown1 call]
  have c0: "fetchCalls st0 = 0" by (simp add: st0_def)
  from T have a: "fst ?r = Inr payload" "fetchCalls (snd ?r) = Suc (fetchCalls st0)" by blast+
  have w: "(2000::int) - dateHeaderMs 1999 \<le> 1000 * int 1"
    by (simp add: dateHeaderMs_def)
  from T w have b: "getOrSet decimalText cm0 (snd ?r) ''k'' ?g (Some (Num 1)) 2000 2000
      = (Inr payload, snd ?r)"
    by blast
  have x: "(3000::int) - 1999 > 1000 * int 1" by simp
  from T x have c: "fst (getOrSet decimalText cm0 (snd ?r) ''k'' ?g (Some (Num 1)) 3000 3000)
        = ?g (Suc (fetchCalls st0))
     \<and> fetchCalls (snd (getOrSet decimalText cm0 (snd ?r) ''k'' ?g (Some (Num 1)) 3000 3000))
        = Suc (Suc (fetchCalls st0))"
    by blast
  show ?thesis using en miss nn payload_roundtrip ttl_one_any[of cm0] shown1 a b c by (simp add: c0)
qed


text \<open>
  C5 as stated fails in each of these runs of two calls with the same arguments.
  Two calls less than the ttl apart and two invocations in total: a fetch function
  resolving to \<open>null\<close> (ttl 60 s, calls 10 ms apart); a write at 1999 ms with ttl
  1 s and a second call at 2500 ms, 501 ms later, when the age counted from the
  \<open>Date\<close> header (1000 ms) is 1.5 s; a disabled cache; a fetch function resolving
  to \<open>undefined\<close>, stored as an empty body that \<open>get\<close> cannot parse; and ttl
  1.5 s, written as \<open>max-age=1.5\<close> of which the pattern reads \<open>1\<close>, with calls at
  1000 ms and 2200 ms. Payloads that differ: \<open>{"v": NaN}\<close> is returned by the
  first call and \<open>{"v": null}\<close> by the second, 10 ms later. No second invocation
  after the ttl has elapsed: ttl -5 is written as \<open>max-age=-5\<close>, which the pattern
  does not match, so the entry is still served 10 s later. (Where the fetch
  function returns the number of its earlier invocations, the second result shows
  which invocation it comes from.)
\<close>

theorem getOrSet_refetch_counterexample:
  "getOrSet_twice cm0 (\<lambda>n. Inr VNull) (Some (Num 60)) 0 10 = (Inr VNull, Inr VNull, 2)
   \<and> getOrSet_twice cm0 (\<lambda>n. Inr (VNumber (Num (rat_of_nat n)))) (Some (Num 1)) 1999 2500
       = (Inr (VNumber (Num 0)), Inr (VNumber (Num 1)), 2)
   \<and> getOrSet_twice cm_off (\<lambda>n. Inr (VNumber (Num (rat_of_nat n)))) (Some (Num 60)) 0 10
       = (Inr (VNumber (Num 0)), Inr (VNumber (Num 1)), 2)
   \<and> getOrSet_twice cm0 (\<lambda>n. Inr VUndefined) (Some (Num 60)) 0 10
       = (Inr VUndefined, Inr VUndefined, 2)
   \<and> getOrSet_twice cm0 (\<lambda>n. Inr (VNumber (Num (rat_of_nat n)))) (Some (Num (3 / 2))) 1000 2200
       = (Inr (VNumber (Num 0)), Inr (VNumber (Num 1)), 2)
   \<and> getOrSet_twice cm0 (\<lambda>n. Inr (VObject [(''v'', VNumber NaN)])) (Some (Num 60)) 0 10
       = (Inr (VObject [(''v'', VNumber NaN)]), Inr (VObject [(''v'', VNull)]), 1)
   \<and> getOrSet_twice cm0 (\<lambda>n. Inr (VNumber (Num (rat_of_nat n)))) (Some (Num (- 5))) 0 10000
       = (Inr (VNumber (Num 0)), Inr (VNumber (Num 0)), 1)"
  using twice_null twice_truncated twice_disabled twice_undefined twice_fraction twice_nan
    twice_negative
  by (intro conjI)

subsection \<open>Expired entries are purged on read (C6)\<close>

text \<open>
  C6, as amended. With the cache enabled: for every cache entry that has a
  \<open>Date\<close> header and a \<open>Cache-Control\<close> header in which \<open>max-age=\<close> is followed by
  digits, if its age (now minus the time of its \<open>Date\<close> header) exceeds that
  max-age in seconds, then \<open>get\<close> never returns it: \<open>get\<close> deletes the entry and
  reports a miss. So it is for every entry that \<open>set\<close> wrote with an effective ttl
  that is a whole number \<open>T \<ge> 0\<close> of seconds, once more than \<open>T\<close> seconds have
  passed since the write. In particular, with a time-to-live of 1 second (the ttl
  argument counts seconds, so 1000 ms is \<open>ttl = 1\<close>), after \<open>set("k", {"v":1})\<close>,
  which succeeds, a \<open>get("k")\<close> made no later than 1000 ms after the start of the
  clock second of the write, for instance at the clock reading of the write itself,
  returns \<open>{"v":1}\<close>, and a \<open>get("k")\<close> performed 1100 ms after the write returns
  a miss with the entry purged.
\<close>

theorem get_expired_purged:
  assumes en: "c_enabled (cm_config cm)"
  shows "(\<forall>c key e d digits now.
            c (requestOf cm key) = Some e \<and> date e = Some d
            \<and> match_max_age (cacheControl e) = Some digits
            \<and> now - d > 1000 * int (parseInt digits)
            \<longrightarrow> get cm c key now = (VNull, c(requestOf cm key := None)))
     \<and> (\<forall>numberText c key v ttl T tw now.
            cacheTtl cm ttl = Num (rat_of_nat T) \<and> numberText (Num (rat_of_nat T)) = show_nat T
            \<and> stringify v \<noteq> Threw \<and> now - tw > 1000 * int T
            \<longrightarrow> get cm (snd (set_cache numberText cm c key v ttl tw)) key now
                  = (VNull, (snd (set_cache numberText cm c key v ttl tw))(requestOf cm key := None)))
     \<and> (\<forall>numberText c tw t.
            numberText (Num 1) = show_nat 1 \<and> t - dateHeaderMs tw \<le> 1000
            \<longrightarrow> get cm (snd (set_cache numberText cm c ''k'' payload (Some (Num 1)) tw)) ''k'' t
                  = (payload, snd (set_cache numberText cm c ''k'' payload (Some (Num 1)) tw)))
     \<and> (\<forall>numberText c tw.
            numberText (Num 1) = show_nat 1
            \<longrightarrow> fst (set_cache numberText cm c ''k'' payload (Some (Num 1)) tw)
                \<and> get cm (snd (set_cache numberText cm c ''k'' payload (Some (Num 1)) tw)) ''k'' tw
                  = (payload, snd (set_cache numberText cm c ''k'' payload (Some (Num 1)) tw))
                \<and> get cm (snd (set_cache numberText cm c ''k'' payload (Some (Num 1)) tw)) ''k''
                     (tw + 1100)
                  = (VNull, (snd (set_cache numberText cm c ''k'' payload (Some (Num 1)) tw))
                              (requestOf cm ''k'' := None)))"
proof -
  have one: "get cm c key now = (VNull, c(requestOf cm key := None))"
    if "c (requestOf cm key) = Some e" "date e = Some d"
      "match_max_age (cacheControl e) = Some digits" "now - d > 1000 * int (parseInt digits)"
    for c key e d digits now
    using en that by (simp add: get_simp)
  have two: "get cm (snd (set_cache numberText cm c key v ttl tw)) key now
       = (VNull, (snd (set_cache numberText cm c key v ttl tw))(requestOf cm key := None))"
    if w: "cacheTtl cm ttl = Num (rat_of_nat T)" and s: "numberText (Num (rat_of_nat T)) = show_nat T"
      and ok: "stringify v \<noteq> Threw" and late: "now - tw > 1000 * int T"
    for numberText c key v ttl T tw now
  proof -
    have "dateHeaderMs tw \<le> tw" by (rule dateHeaderMs_le)
    with late have "now - dateHeaderMs tw > 1000 * int T" by linarith
    then show ?thesis using get_after_set[where numberText = numberText and T = T and ttl = ttl and v = v
          and c = c and key = key and tw = tw and now = now, OF en w s ok]
      by simp
  qed
  have three: "get cm (snd (set_cache numberText cm c ''k'' payload (Some (Num 1)) tw)) ''k'' t
       = (payload, snd (set_cache numberText cm c ''k'' payload (Some (Num 1)) tw))"
    if s: "numberText (Num 1) = show_nat 1" and early: "t - dateHeaderMs tw \<le> 1000"
    for numberText c tw t
  proof -
    have s': "numberText (Num (rat_of_nat 1)) = show_nat 1" using s by simp
    show ?thesis
      using get_after_set[where numberText = numberText and T = 1 and ttl = "Some (Num 1)"
          and v = payload and c = c and key = "''k''" and tw = tw and now = t,
          OF en ttl_one_any s' payload_not_thrown] early
      by (simp add: payload_roundtrip)
  qed
  have four: "fst (set_cache numberText cm c ''k'' payload (Some (Num 1)) tw)
       \<and> get cm (snd (set_cache numberText cm c ''k'' payload (Some (Num 1)) tw)) ''k'' tw
           = (payload, snd (set_cache numberText cm c ''k'' payload (Some (Num 1)) tw))
       \<and> get cm (snd (set_cache numberText cm c ''k'' payload (Some (Num 1)) tw)) ''k'' (tw + 1100)
           = (VNull, (snd (set_cache numberText cm c ''k'' payload (Some (Num 1)) tw))
                       (requestOf cm ''k'' := None))"
    if s: "numberText (Num 1) = show_nat 1" for numberText c tw
  proof -
    have s': "numberText (Num (rat_of_nat 1)) = show_nat 1" using s by simp
    have a: "fst (set_cache numberText cm c ''k'' payload (Some (Num 1)) tw)"
      using en by (simp add: set_cache_enabled payload_roundtrip)
    have "tw - dateHeaderMs tw \<le> 1000" using dateHeaderMs_gt[of tw] by linarith
    then have b: "get cm (snd (set_cache numberText cm c ''k'' payload (Some (Num 1)) tw)) ''k'' tw
           = (payload, snd (set_cache numberText cm c ''k'' payload (Some (Num 1)) tw))"
      using three[where numberText = numberText and c = c and tw = tw and t = tw, OF s] by simp
    have "(tw + 1100) - tw > 1000 * int 1" by simp
    then have c: "get cm (snd (set_cache numberText cm c ''k'' payload (Some (Num 1)) tw)) ''k'' (tw + 1100)
           = (VNull, (snd (set_cache numberText cm c ''k'' payload (Some (Num 1)) tw))
                       (requestOf cm ''k'' := None))"
      using two[where numberText = numberText and T = 1 and ttl = "Some (Num 1)"
          and v = payload and c = c and key = "''k''" and tw = tw and now = "tw + 1100",
          OF ttl_one_any s' payload_not_thrown]
      by simp
    show ?thesis using a b c by blast
  qed
  show ?thesis using one two three four by blast
qed

text \<open>
  At the enabled example manager: the entry of 5000 ms with \<open>max-age=1\<close> is purged
  by a \<open>get\<close> at 6001 ms; and after a \<open>set\<close> at 5999 ms with ttl 1, \<open>get\<close> returns
  the payload at 5999 ms and at 6000 ms, and at 7099 ms it reports a miss and the
  entry is gone.
\<close>

theorem get_expired_purged_witness:
  "c_enabled (cm_config cm0)
   \<and> (Map.empty(requestOf cm0 ''k'' \<mapsto> entry0)) (requestOf cm0 ''k'') = Some entry0
   \<and> date entry0 = Some 5000
   \<and> match_max_age (cacheControl entry0) = Some ''1''
   \<and> (6001::int) - 5000 > 1000 * int (parseInt ''1'')
   \<and> fst (get cm0 (Map.empty(requestOf cm0 ''k'' \<mapsto> entry0)) ''k'' 6001) = VNull
   \<and> snd (get cm0 (Map.empty(requestOf cm0 ''k'' \<mapsto> entry0)) ''k'' 6001) (requestOf cm0 ''k'') = None
   \<and> decimalText (Num 1) = show_nat 1
   \<and> cacheTtl cm0 (Some (Num 1)) = Num (rat_of_nat 1)
   \<and> stringify payload \<noteq> Threw
   \<and> (5999::int) - dateHeaderMs 5999 \<le> 1000
   \<and> (6000::int) - dateHeaderMs 5999 \<le> 1000
   \<and> fst (set_cache decimalText cm0 Map.empty ''k'' payload (Some (Num 1)) 5999)
   \<and> fst (get cm0 (snd (set_cache decimalText cm0 Map.empty ''k'' payload (Some (Num 1)) 5999))
            ''k'' 5999) = payload
   \<and> fst (get cm0 (snd (set_cache decimalText cm0 Map.empty ''k'' payload (Some (Num 1)) 5999))
            ''k'' 6000) = payload
   \<and> fst (get cm0 (snd (set_cache decimalText cm0 Map.empty ''k'' payload (Some (Num 1)) 5999))
            ''k'' 7099) = VNull
   \<and> snd (get cm0 (snd (set_cache decimalText cm0 Map.empty ''k'' payload (Some (Num 1)) 5999))
            ''k'' 7099) (requestOf cm0 ''k'') = None"
proof -
  let ?pre = "(Map.empty(requestOf cm0 ''k'' \<mapsto> entry0)) :: cache"
  let ?c = "snd (set_cache decimalText cm0 Map.empty ''k'' payload (Some (Num 1)) 5999)"
  have en: "c_enabled (cm_config cm0)" by (simp add: cm0_def)
  note T = get_expired_purged[OF en]
  have e: "?pre (requestOf cm0 ''k'') = Some entry0" by simp
  have d: "date entry0 = Some 5000" by (simp add: entry0_def)
  have late: "(6001::int) - 5000 > 1000 * int (parseInt ''1'')" by (simp add: parseInt_one)
  note T1 = T[THEN conjunct1, rule_format]
  note T2 = T[THEN conjunct2, THEN conjunct1, rule_format]
  note T3 = T[THEN conjunct2, THEN conjunct2, THEN conjunct1, rule_format]
  note T4 = T[THEN conjunct2, THEN conjunct2, THEN conjunct2, rule_format]
  have g1: "get cm0 ?pre ''k'' 6001 = (VNull, ?pre(requestOf cm0 ''k'' := None))"
    using T1[where c = ?pre and key = "''k''" and e = entry0 and d = 5000 and digits = "''1''"
        and now = 6001] e d entry0_max_age late
    by blast
  have w1: "(5999::int) - dateHeaderMs 5999 \<le> 1000" by (simp add: dateHeaderMs_def)
  have w2: "(6000::int) - dateHeaderMs 5999 \<le> 1000" by (simp add: dateHeaderMs_def)
  have h1: "get cm0 ?c ''k'' 5999 = (payload, ?c)"
    using T3[where numberText = decimalText and c = Map.empty and tw = 5999 and t = 5999]
      decimalText_one w1
    by blast
  have h2: "get cm0 ?c ''k'' 6000 = (payload, ?c)"
    using T3[where numberText = decimalText and c = Map.empty and tw = 5999 and t = 6000]
      decimalText_one w2
    by blast
  have late2: "(7099::int) - 5999 > 1000 * int 1" by simp
  have h3: "get cm0 ?c ''k'' 7099 = (VNull, ?c(requestOf cm0 ''k'' := None))"
    using T2[where numberText = decimalText and c = Map.empty and key = "''k''" and v = payload
        and ttl = "Some (Num 1)" and T = 1 and tw = 5999 and now = 7099]
      ttl_one_any[of cm0] decimalText_nat[of 1] payload_not_thrown late2
    by blast
  have f: "fst (set_cache decimalText cm0 Map.empty ''k'' payload (Some (Num 1)) 5999)"
    using T4[where numberText = decimalText and c = Map.empty and tw = 5999] decimalText_one
    by blast
  show ?thesis
    using en e d entry0_max_age late w1 w2 decimalText_one ttl_one_any[of cm0] payload_not_thrown f
    by (simp add: g1 h1 h2 h3)
qed

text \<open>
  C6 as stated fails for a disabled cache, where \<open>set\<close> stores nothing and the
  immediate \<open>get\<close> misses; for a \<open>set\<close> at 5999 ms with ttl 1, which writes the
  date of 5000 ms, so that a \<open>get\<close> only 2 ms later, at 6001 ms, finds the age 1.001 s
  and misses; and for an entry written with ttl -5, whose \<open>max-age=-5\<close> the pattern
  does not match: its age exceeds its max-age at once, and \<open>get\<close> still returns it
  10 s later.
\<close>

theorem get_expiry_counterexample:
  "fst (get cm_off (snd (set_cache decimalText cm_off Map.empty ''k'' payload (Some (Num 1)) 5999))
          ''k'' 5999) = VNull
   \<and> fst (get cm0 (snd (set_cache decimalText cm0 Map.empty ''k'' payload (Some (Num 1)) 5999))
          ''k'' 6001) = VNull
   \<and> fst (get cm0 (snd (set_cache decimalText cm0 Map.empty ''k'' payload (Some (Num (- 5))) 0))
          ''k'' 10000) = payload"
  using disabled_set_get truncated_set_get negative_set_get by (intro conjI)

section \<open>Properties of the stream transport\<close>

lemma sendEvent_closed: "closed t \<Longrightarrow> sendEvent t ty d i r w = (Inr (), t)"
  by (simp add: sendEvent_def)

lemma close_closed: "closed t \<Longrightarrow> close t d w c = t"
  by (simp add: close_def)

lemma step_closed:
  "closed t \<Longrightarrow> closed (transport_step t op) \<and> attempts (transport_step t op) = attempts t"
  by (cases op)
     (simp_all add: sendEvent_closed close_closed sendMessage_def sendHeartbeat_def sendError_def
        createResponse_def sendConnectionEvent_def sendEvent_def)

lemma run_closed:
  "closed t \<Longrightarrow> closed (transport_run t ops) \<and> attempts (transport_run t ops) = attempts t"
  unfolding transport_run_def
proof (induction ops arbitrary: t)
  case Nil
  then show ?case by simp
next
  case (Cons op ops)
  from step_closed[OF Cons.prems, of op]
  have c: "closed (transport_step t op)" and a: "attempts (transport_step t op) = attempts t"
    by simp_all
  from Cons.IH[OF c] a show ?case by simp
qed

lemma sendEvent_failure: "sendEvent t ty d i r w = (Inl e, t1) \<Longrightarrow> closed t1"
  by (auto simp: sendEvent_def Let_def split: if_splits option.splits)

text \<open>
  C8. On a stateful stream transport a write failure is an immediate, silent
  transition to Closed: once any \<open>sendEvent\<close> fails, the transport is marked
  closed; every subsequent \<open>sendEvent\<close> returns without writing to the stream; a
  later \<open>close()\<close> changes nothing and attempts no event, so no \<open>close\<close> event is
  written; and over every sequence of further operations the transport stays
  closed and the list of write attempts stays as the failure left it.
\<close>

theorem write_failure_closes:
  assumes "sendEvent t ty d i r w = (Inl e, t1)"
  shows "closed t1
     \<and> (\<forall>ty' d' i' r' w'. sendEvent t1 ty' d' i' r' w' = (Inr (), t1))
     \<and> (\<forall>d' w' c'. close t1 d' w' c' = t1)
     \<and> (\<forall>ops. closed (transport_run t1 ops) \<and> attempts (transport_run t1 ops) = attempts t1)"
proof -
  have c: "closed t1" using assms by (rule sendEvent_failure)
  show ?thesis using c sendEvent_closed[OF c] close_closed[OF c] run_closed[OF c] by simp
qed

theorem write_failure_closes_witness:
  "sendEvent tr_open ''message'' (Some ''{}'') None None False
     = (Inl WriteFailed, snd (sendEvent tr_open ''message'' (Some ''{}'') None None False))
   \<and> closed (snd (sendEvent tr_open ''message'' (Some ''{}'') None None False))
   \<and> attempts (transport_run (snd (sendEvent tr_open ''message'' (Some ''{}'') None None False))
                 [SendMessage (Some ''{}'') True, Close ''{}'' True True])
       = attempts (snd (sendEvent tr_open ''message'' (Some ''{}'') None None False))"
proof -
  have h: "sendEvent tr_open ''message'' (Some ''{}'') None None False
     = (Inl WriteFailed, snd (sendEvent tr_open ''message'' (Some ''{}'') None None False))"
    by (simp add: sendEvent_def tr_open_def newSSETransport_def Let_def)
  from write_failure_closes[OF h] h show ?thesis by simp
qed

section \<open>Properties of the backend client\<close>

subsection \<open>What holds: the delays, the bound, aborts, and 4xx over the HTTP API\<close>

text \<open>
  The delay before attempt \<open>k + 1\<close> is \<open>2^(k-1)\<close> seconds and at most
  \<open>retries\<close> attempts follow the first; an \<open>AbortError\<close> is never retried; a 4xx
  response over the HTTP API is never retried.
\<close>

lemma show_nat_4xx:
  assumes "400 \<le> n" and "n \<le> 499"
  shows "\<exists>rest. show_nat n = CHR ''4'' # rest"
proof -
  have a: "\<not> n < 10" "\<not> n div 10 < 10" "n div 10 div 10 = 4" using assms by auto
  have "show_nat n = show_nat 4 @ [digit_char (n div 10 mod 10)] @ [digit_char (n mod 10)]"
    using a by (simp add: show_nat.simps[of n] show_nat.simps[of "n div 10"])
  moreover have "show_nat 4 = [CHR ''4'']" by code_simp
  ultimately show ?thesis by simp
qed

lemma http_4xx_not_retryable:
  assumes "400 \<le> sc" and "sc \<le> 499"
  shows "\<not> isRetryableError \<lparr>error_name = ''Error'',
            error_message = ''HTTP'' @ '' '' @ show_nat sc @ rest\<rparr>"
proof -
  obtain r where "show_nat sc = CHR ''4'' # r" using show_nat_4xx[OF assms] by blast
  then show ?thesis by (simp add: isRetryableError_def)
qed

lemma makeRequest_http_4xx:
  assumes "\<not> useServiceBinding c" and "truthy (baseUrl c)"
    and "net attempt = Responded sc result" and "400 \<le> sc" and "sc \<le> 499"
  shows "fst (makeRequest c net attempt) = []"
proof -
  have nok: "\<not> response_ok sc" using assms(4) by (simp add: response_ok_def)
  obtain rest where e: "attemptRequest c (net attempt) =
      Inl \<lparr>error_name = ''Error'', error_message = ''HTTP'' @ '' '' @ show_nat sc @ rest\<rparr>"
    using assms(1,2,3) nok
    by (simp add: attemptRequest_def makeHttpRequest_def Let_def)
  show ?thesis
    using http_4xx_not_retryable[OF assms(4,5), of rest]
    by (simp add: makeRequest.simps[of c net attempt] e)
qed

lemma makeRequest_abort:
  assumes "net attempt = Thrown e" and "error_name e = ''AbortError''"
    and "if useServiceBinding c \<and> hasServiceBinding c then True else truthy (baseUrl c)"
  shows "makeRequest c net attempt = ([], Inl e)"
proof -
  have "attemptRequest c (net attempt) = Inl e"
    using assms(1,3)
    by (auto simp: attemptRequest_def makeServiceBindingRequest_def makeHttpRequest_def
        split: if_splits)
  then show ?thesis using assms(2)
    by (simp add: makeRequest.simps[of c net attempt] isRetryableError_def)
qed

lemma makeRequest_delays:
  "(\<forall>j < length (fst (makeRequest c net attempt)).
       fst (makeRequest c net attempt) ! j = 2 ^ (attempt + j - 1) * 1000)
   \<and> attempt + length (fst (makeRequest c net attempt)) \<le> max attempt (Suc (retries c))"
proof (induction c net attempt rule: makeRequest.induct)
  case (1 c net attempt)
  show ?case
  proof (cases "attemptRequest c (net attempt)")
    case (Inr result)
    then show ?thesis by (simp add: makeRequest.simps[of c net attempt])
  next
    case (Inl error)
    show ?thesis
    proof (cases "attempt \<le> retries c \<and> isRetryableError error")
      case False
      then have "makeRequest c net attempt = ([], Inl error)"
        using Inl by (auto simp: makeRequest.simps[of c net attempt])
      then show ?thesis by simp
    next
      case True
      obtain ds r where rec: "makeRequest c net (attempt + 1) = (ds, r)"
        by (cases "makeRequest c net (attempt + 1)")
      have IH: "(\<forall>j < length ds. ds ! j = 2 ^ (attempt + 1 + j - 1) * 1000)
         \<and> attempt + 1 + length ds \<le> max (attempt + 1) (Suc (retries c))"
        using "1.IH"[OF Inl] True rec by simp
      have eq: "makeRequest c net attempt = (2 ^ (attempt - 1) * 1000 # ds, r)"
        using Inl True rec by (simp add: makeRequest.simps[of c net attempt])
      have nth: "(2 ^ (attempt - 1) * 1000 # ds) ! j = 2 ^ (attempt + j - 1) * 1000"
        if "j < Suc (length ds)" for j
      proof (cases j)
        case 0
        then show ?thesis by simp
      next
        case (Suc k)
        with that have "k < length ds" by simp
        with IH have "ds ! k = 2 ^ (attempt + 1 + k - 1) * 1000" by blast
        then show ?thesis using Suc by simp
      qed
      have len: "attempt + Suc (length ds) \<le> max attempt (Suc (retries c))"
        using IH True by auto
      show ?thesis unfolding eq using nth len by simp
    qed
  qed
qed

subsection \<open>A 4xx over the service binding (C7)\<close>

lemma show_404: "show_nat 404 = ''404''"
  by code_simp

text \<open>
  C7 claims that a response with 4xx status is never retried, over the HTTP API
  and over the service binding alike. The code at a 404 answer: over the service
  binding the error message is \<open>Service 404: Not Found\<close>, in which
  \<open>isRetryableError\<close> does not find \<open>HTTP 4\<close>, and the request is retried twice,
  after 1000 ms and 2000 ms; over the HTTP API the message is
  \<open>HTTP 404: Not Found\<close> and there is no retry.
\<close>

theorem makeRequest_binding_4xx_retried:
  "makeRequest bindingClient (\<lambda>n. Responded 404 notFound) 1
     = ([1000, 2000], Inl \<lparr>error_name = ''Error'', error_message = ''Service 404: Not Found''\<rparr>)
   \<and> makeRequest apiClient (\<lambda>n. Responded 404 notFound) 1
     = ([], Inl \<lparr>error_name = ''Error'', error_message = ''HTTP 404: Not Found''\<rparr>)"
  by (simp add: makeRequest.simps attemptRequest_def makeServiceBindingRequest_def
      makeHttpRequest_def bindingClient_def apiClient_def notFound_def response_ok_def
      truthy_def isRetryableError_def show_404)

section \<open>Properties of the session registry\<close>

subsection \<open>Removal and insertion on the entry list\<close>

lemma tenth: "nat \<lfloor>rat_of_nat MAX_SESSIONS * (1 / 10)\<rfloor> = 10"
  by (simp add: MAX_SESSIONS_def)

lemma sessions_removeSession:
  "sessions (removeSession m sid) = filter (\<lambda>e. fst e \<noteq> sid) (sessions m)"
proof (cases "map_of (sessions m) sid")
  case None
  then have "sid \<notin> fst ` set (sessions m)" by (simp add: map_of_eq_None_iff)
  then have "filter (\<lambda>e. fst e \<noteq> sid) (sessions m) = sessions m"
    by (intro filter_True) auto
  with None show ?thesis by (simp add: removeSession_def)
next
  case (Some a)
  then show ?thesis by (simp add: removeSession_def map_delete_def)
qed

lemma sessions_foldl_remove:
  "sessions (foldl removeSession m sids) = filter (\<lambda>e. fst e \<notin> set sids) (sessions m)"
proof (induction sids arbitrary: m)
  case Nil
  then show ?case by simp
next
  case (Cons s sids)
  have "sessions (foldl removeSession (removeSession m s) sids)
      = filter (\<lambda>e. fst e \<notin> set sids) (filter (\<lambda>e. fst e \<noteq> s) (sessions m))"
    by (simp add: Cons.IH sessions_removeSession)
  also have "\<dots> = filter (\<lambda>e. fst e \<notin> set (s # sids)) (sessions m)"
    by (simp add: conj_commute)
  finally show ?case by simp
qed

lemma length_map_set: "length (map_set xs k v) \<le> Suc (length xs)"
  by (induction xs) auto

lemma map_set_fresh: "k \<notin> set (map fst xs) \<Longrightarrow> map_set xs k v = xs @ [(k, v)]"
  by (induction xs) auto

lemma keys_map_set: "set (map fst (map_set xs k v)) = insert k (set (map fst xs))"
proof (induction xs)
  case Nil
  then show ?case by simp
next
  case (Cons x xs)
  obtain k' v' where x: "x = (k', v')" by (cases x)
  show ?case
  proof (cases "k' = k")
    case True
    then show ?thesis using x by simp
  next
    case False
    have "set (map fst (map_set (x # xs) k v)) = insert k' (set (map fst (map_set xs k v)))"
      using x False by simp
    also have "\<dots> = insert k' (insert k (set (map fst xs)))"
      by (simp only: Cons.IH)
    finally show ?thesis using x by auto
  qed
qed

lemma distinct_map_set: "distinct (map fst xs) \<Longrightarrow> distinct (map fst (map_set xs k v))"
proof (induction xs)
  case Nil
  then show ?case by simp
next
  case (Cons x xs)
  obtain k' v' where x: "x = (k', v')" by (cases x)
  show ?case
  proof (cases "k' = k")
    case True
    with Cons.prems x show ?thesis by simp
  next
    case False
    have "k' \<notin> set (map fst (map_set xs k v))"
      using Cons.prems x False unfolding keys_map_set by simp
    with Cons x False show ?thesis by simp
  qed
qed

subsection \<open>Evicting the oldest sessions\<close>

lemma length_map_set_present:
  "map_of xs k = Some v' \<Longrightarrow> length (map_set xs k v) = length xs"
  by (induction xs) (auto split: if_splits)

lemma oldest_keys_removed:
  "filter (\<lambda>e. fst e \<notin> set (map fst (oldest n xs))) (oldest n xs) = []"
  by (simp add: filter_empty_conv)

lemma length_evict:
  "length (filter (\<lambda>e. fst e \<notin> set (map fst (oldest n xs))) xs) \<le> length xs - n"
proof -
  let ?f = "\<lambda>e::string \<times> SessionInfo. createdAt (snd e)"
  let ?S = "sort_key ?f xs"
  let ?P = "\<lambda>e::string \<times> SessionInfo. fst e \<notin> set (map fst (oldest n xs))"
  have "length (filter ?P xs) = length (sort_key ?f (filter ?P xs))" by simp
  then have e1: "length (filter ?P xs) = length (filter ?P ?S)" by (simp only: filter_sort)
  have "filter ?P ?S = filter ?P (take n ?S @ drop n ?S)" by simp
  then have e2: "filter ?P ?S = filter ?P (take n ?S) @ filter ?P (drop n ?S)"
    by (simp only: filter_append)
  have e3: "filter ?P (take n ?S) = []"
    using oldest_keys_removed[of n xs] by (simp only: oldest_def)
  have "length (filter ?P ?S) = length (filter ?P (drop n ?S))"
    unfolding e2 e3 by simp
  also have "\<dots> \<le> length (drop n ?S)" by (rule length_filter_le)
  also have "\<dots> = length xs - n" by simp
  finally show ?thesis using e1 by simp
qed

lemma oldest_subset: "set (oldest n xs) \<subseteq> set xs"
proof -
  have "set (oldest n xs) \<subseteq> set (sort_key (\<lambda>e. createdAt (snd e)) xs)"
    unfolding oldest_def by (rule set_take_subset)
  then show ?thesis by simp
qed

lemma length_oldest: "length (oldest n xs) = min (length xs) n"
  by (simp add: oldest_def)

lemma oldest_are_oldest:
  assumes "v \<in> set (oldest n xs)" and "s \<in> set xs - set (oldest n xs)"
  shows "createdAt (snd v) \<le> createdAt (snd s)"
proof -
  let ?f = "\<lambda>e::string \<times> SessionInfo. createdAt (snd e)"
  let ?S = "sort_key ?f xs"
  have "s \<in> set ?S" using assms(2) by simp
  then have "s \<in> set (take n ?S) \<union> set (drop n ?S)"
    by (metis append_take_drop_id set_append)
  with assms(2) have s: "s \<in> set (drop n ?S)" by (auto simp: oldest_def)
  have v: "v \<in> set (take n ?S)" using assms(1) by (simp add: oldest_def)
  have "sorted (map ?f (take n ?S @ drop n ?S))" by (simp add: sorted_sort_key del: sort_key_simps)
  then have "\<forall>a \<in> set (map ?f (take n ?S)). \<forall>b \<in> set (map ?f (drop n ?S)). a \<le> b"
    by (simp only: map_append sorted_append) blast
  with v s show ?thesis by auto
qed

lemma evict_survivors:
  assumes "distinct (map fst xs)"
  shows "set (filter (\<lambda>e. fst e \<notin> set (map fst (oldest n xs))) xs) = set xs - set (oldest n xs)"
proof -
  have inj: "inj_on fst (set xs)" using assms by (simp add: distinct_map)
  have sub: "set (oldest n xs) \<subseteq> set xs" by (rule oldest_subset)
  show ?thesis
  proof (intro set_eqI iffI)
    fix e assume "e \<in> set (filter (\<lambda>e. fst e \<notin> set (map fst (oldest n xs))) xs)"
    then show "e \<in> set xs - set (oldest n xs)" by auto
  next
    fix e assume e: "e \<in> set xs - set (oldest n xs)"
    have "fst e \<notin> set (map fst (oldest n xs))"
    proof
      assume "fst e \<in> set (map fst (oldest n xs))"
      then obtain v where v: "v \<in> set (oldest n xs)" "fst v = fst e" by auto
      with sub have "v \<in> set xs" by blast
      with inj v e have "v = e" by (auto dest: inj_onD)
      with v e show False by simp
    qed
    with e show "e \<in> set (filter (\<lambda>e. fst e \<notin> set (map fst (oldest n xs))) xs)" by simp
  qed
qed

lemma length_evict_distinct:
  assumes "distinct (map fst xs)"
  shows "length (filter (\<lambda>e. fst e \<notin> set (map fst (oldest n xs))) xs) = length xs - n"
proof -
  let ?P = "\<lambda>e::string \<times> SessionInfo. fst e \<notin> set (map fst (oldest n xs))"
  have dx: "distinct xs" using assms by (rule distinct_map[THEN iffD1, THEN conjunct1])
  have dso: "distinct (sort_key (\<lambda>e. createdAt (snd e)) xs)" using dx by simp
  have do: "distinct (oldest n xs)" unfolding oldest_def using dso by (rule distinct_take)
  have "distinct (filter ?P xs)" using dx by simp
  then have "length (filter ?P xs) = card (set (filter ?P xs))"
    by (rule distinct_card[symmetric])
  also have "\<dots> = card (set xs - set (oldest n xs))"
    by (simp only: evict_survivors[OF assms])
  also have "\<dots> = card (set xs) - card (set (oldest n xs))"
    by (rule card_Diff_subset) (simp_all add: oldest_subset)
  also have "\<dots> = length xs - length (oldest n xs)"
    by (simp only: distinct_card[OF dx] distinct_card[OF do])
  also have "\<dots> = length xs - n" by (simp add: length_oldest)
  finally show ?thesis .
qed

lemma sessions_cleanupOldest:
  "sessions (snd (cleanupOldestSessions m n))
     = filter (\<lambda>e. fst e \<notin> set (map fst (oldest n (sessions m)))) (sessions m)"
  by (simp add: cleanupOldestSessions_def Let_def sessions_foldl_remove)

lemma sessions_createSession:
  "sessions (snd (createSession m ci now uuid)) =
     (let xs = sessions (snd (cleanupExpiredSessions m now))
      in if length xs \<ge> 100
         then filter (\<lambda>e. fst e \<notin> set (map fst (oldest 10 xs))) xs
         else xs)"
  unfolding createSession_def Let_def tenth
  by (simp add: sessions_cleanupOldest MAX_SESSIONS_def)

lemma sessions_createAndAdd:
  "sessions (snd (createAndAdd m ci now uuid)) =
     map_set (sessions (snd (createSession m ci now uuid))) uuid
       \<lparr>s_id = uuid, transport = newSSETransport uuid None, createdAt = now,
        lastActivityAt = now, clientInfo = ci\<rparr>"
  by (simp add: createAndAdd_def createSession_def addSession_def Let_def)

lemma sessions_cleanupExpired:
  "\<exists>P. sessions (snd (cleanupExpiredSessions m now)) = filter P (sessions m)"
proof (cases "now - lastCleanup m < CLEANUP_INTERVAL")
  case True
  then have "sessions (snd (cleanupExpiredSessions m now)) = filter (\<lambda>e. True) (sessions m)"
    by (simp add: cleanupExpiredSessions_def)
  then show ?thesis by blast
next
  case False
  then show ?thesis
    by (simp add: cleanupExpiredSessions_def Let_def sessions_foldl_remove) blast
qed

subsection \<open>The table stays within capacity\<close>

lemma table_ok_filter:
  assumes "table_ok m" and "sessions m' = filter P (sessions m)"
  shows "table_ok m'"
proof -
  have "length (filter P (sessions m)) \<le> length (sessions m)" by simp
  moreover have "distinct (map fst (filter P (sessions m)))"
    using assms(1) by (simp add: table_ok_def distinct_map_filter)
  moreover have "length (sessions m) \<le> MAX_SESSIONS" using assms(1) by (simp add: table_ok_def)
  ultimately have "length (filter P (sessions m)) \<le> MAX_SESSIONS
      \<and> distinct (map fst (filter P (sessions m)))" by linarith
  then show ?thesis unfolding table_ok_def assms(2) .
qed

lemma table_ok_removeSession: "table_ok m \<Longrightarrow> table_ok (removeSession m sid)"
  by (erule table_ok_filter) (rule sessions_removeSession)

lemma table_ok_cleanupExpired: "table_ok m \<Longrightarrow> table_ok (snd (cleanupExpiredSessions m now))"
  using sessions_cleanupExpired[of m now] by (auto intro: table_ok_filter)

lemma table_ok_cleanupAll: "table_ok m \<Longrightarrow> table_ok (snd (cleanupAllSessions m))"
  by (erule table_ok_filter[where P = "\<lambda>e. fst e \<notin> set (map fst (sessions m))"])
     (simp only: cleanupAllSessions_def snd_conv sessions_foldl_remove)

lemma table_ok_getSession: "table_ok m \<Longrightarrow> table_ok (snd (getSession m sid now))"
proof (cases "map_of (sessions m) sid")
  case None
  assume "table_ok m"
  with None show ?thesis by (simp add: getSession_def)
next
  case (Some info)
  assume ok: "table_ok m"
  show ?thesis
  proof (cases "isSessionExpired now info")
    case True
    with Some ok show ?thesis by (simp add: getSession_def table_ok_removeSession)
  next
    case False
    with Some ok show ?thesis
      by (simp add: getSession_def table_ok_def length_map_set_present distinct_map_set)
  qed
qed

lemma table_ok_createAndAdd:
  assumes "table_ok m"
  shows "table_ok (snd (createAndAdd m ci now uuid))"
proof -
  let ?m1 = "snd (cleanupExpiredSessions m now)"
  let ?xs = "sessions ?m1"
  let ?ys = "sessions (snd (createSession m ci now uuid))"
  have ok1: "table_ok ?m1" using assms by (rule table_ok_cleanupExpired)
  have len: "length ?ys \<le> 99"
  proof (cases "length ?xs \<ge> 100")
    case True
    have "length (filter (\<lambda>e. fst e \<notin> set (map fst (oldest 10 ?xs))) ?xs) \<le> length ?xs - 10"
      by (rule length_evict)
    moreover have "length ?xs \<le> 100" using ok1 by (simp add: table_ok_def MAX_SESSIONS_def)
    ultimately show ?thesis using True by (simp add: sessions_createSession Let_def)
  next
    case False
    then show ?thesis by (simp add: sessions_createSession Let_def)
  qed
  have dis: "distinct (map fst ?ys)"
    using ok1 by (simp add: sessions_createSession Let_def table_ok_def distinct_map_filter)
  have "length (sessions (snd (createAndAdd m ci now uuid))) \<le> Suc (length ?ys)"
    unfolding sessions_createAndAdd by (rule length_map_set)
  with len have "length (sessions (snd (createAndAdd m ci now uuid))) \<le> 100" by simp
  moreover have "distinct (map fst (sessions (snd (createAndAdd m ci now uuid))))"
    unfolding sessions_createAndAdd using dis by (rule distinct_map_set)
  ultimately show ?thesis by (simp add: table_ok_def MAX_SESSIONS_def)
qed

lemma table_ok_step: "table_ok m \<Longrightarrow> table_ok (session_step m op)"
  by (cases op)
     (simp_all add: table_ok_createAndAdd table_ok_getSession table_ok_removeSession
        table_ok_cleanupExpired table_ok_cleanupAll)

lemma table_ok_run: "table_ok m \<Longrightarrow> table_ok (session_run m ops)"
  unfolding session_run_def
  by (induction ops arbitrary: m) (simp_all add: table_ok_step)

lemma table_ok_initial: "table_ok (initialManager t0)"
  by (simp add: table_ok_def initialManager_def)


lemma length_createAndAdd:
  assumes "length (sessions m) \<le> MAX_SESSIONS"
  shows "length (sessions (snd (createAndAdd m ci now uuid))) \<le> MAX_SESSIONS"
proof -
  let ?xs = "sessions (snd (cleanupExpiredSessions m now))"
  let ?ys = "sessions (snd (createSession m ci now uuid))"
  obtain P where "?xs = filter P (sessions m)" using sessions_cleanupExpired by blast
  then have "length ?xs \<le> length (sessions m)" by simp
  with assms have lx: "length ?xs \<le> 100" by (simp add: MAX_SESSIONS_def)
  have len: "length ?ys \<le> 99"
  proof (cases "length ?xs \<ge> 100")
    case True
    have "length (filter (\<lambda>e. fst e \<notin> set (map fst (oldest 10 ?xs))) ?xs) \<le> length ?xs - 10"
      by (rule length_evict)
    then show ?thesis using True lx by (simp add: sessions_createSession Let_def)
  next
    case False
    then show ?thesis by (simp add: sessions_createSession Let_def)
  qed
  have "length (sessions (snd (createAndAdd m ci now uuid))) \<le> Suc (length ?ys)"
    unfolding sessions_createAndAdd by (rule length_map_set)
  with len show ?thesis by (simp add: MAX_SESSIONS_def)
qed

subsection \<open>Capacity (C4)\<close>

text \<open>
  C4, as amended. Inserting a session is \<open>createSession\<close> followed by
  \<open>addSession\<close>, as the connect handler runs them; \<open>createSession\<close> first runs the
  expiry sweep when it is due. For every table (a \<open>Map\<close>, so with distinct keys)
  that holds exactly 100 sessions after that sweep, and a fresh session id, the
  insertion first evicts exactly the oldest 10% ordered by creation time: 10
  sessions of the table, each created no later than every session that stays, and
  all other sessions stay in their order; then it admits the new one at the end,
  which leaves 91 sessions. After every such insertion into a table within capacity
  the table size does not exceed capacity, and in every state reached from the
  empty table by such insertions, \<open>getSession\<close>, \<open>removeSession\<close> and the two
  cleanups the table size is at most 100.
\<close>

theorem createAndAdd_capacity:
  assumes rep: "distinct (map fst (sessions m))"
    and full: "length (sessions (snd (cleanupExpiredSessions m now))) = MAX_SESSIONS"
    and fresh: "uuid \<notin> set (map fst (sessions m))"
  shows "length (oldest 10 (sessions (snd (cleanupExpiredSessions m now)))) = 10
     \<and> set (oldest 10 (sessions (snd (cleanupExpiredSessions m now))))
          \<subseteq> set (sessions (snd (cleanupExpiredSessions m now)))
     \<and> (\<forall>v s. v \<in> set (oldest 10 (sessions (snd (cleanupExpiredSessions m now))))
            \<and> s \<in> set (sessions (snd (cleanupExpiredSessions m now)))
                  - set (oldest 10 (sessions (snd (cleanupExpiredSessions m now))))
            \<longrightarrow> createdAt (snd v) \<le> createdAt (snd s))
     \<and> sessions (snd (createAndAdd m ci now uuid))
         = filter (\<lambda>e. e \<notin> set (oldest 10 (sessions (snd (cleanupExpiredSessions m now)))))
             (sessions (snd (cleanupExpiredSessions m now)))
           @ [(uuid, \<lparr>s_id = uuid, transport = newSSETransport uuid None, createdAt = now,
                      lastActivityAt = now, clientInfo = ci\<rparr>)]
     \<and> length (sessions (snd (createAndAdd m ci now uuid))) = 91
     \<and> (\<forall>m' ci' now' uuid'. length (sessions m') \<le> MAX_SESSIONS \<longrightarrow>
           length (sessions (snd (createAndAdd m' ci' now' uuid'))) \<le> MAX_SESSIONS)
     \<and> (\<forall>t0 ops. length (sessions (session_run (initialManager t0) ops)) \<le> MAX_SESSIONS)"
proof -
  let ?xs = "sessions (snd (cleanupExpiredSessions m now))"
  let ?vs = "oldest 10 ?xs"
  let ?new = "\<lparr>s_id = uuid, transport = newSSETransport uuid None, createdAt = now,
                      lastActivityAt = now, clientInfo = ci\<rparr>"
  obtain P where P: "?xs = filter P (sessions m)" using sessions_cleanupExpired by blast
  have dxs: "distinct (map fst ?xs)" unfolding P using rep by (simp add: distinct_map_filter)
  have len: "length ?xs = 100" using full by (simp add: MAX_SESSIONS_def)
  have a: "length ?vs = 10" by (simp add: length_oldest len)
  have b: "set ?vs \<subseteq> set ?xs" by (rule oldest_subset)
  have c: "\<forall>v s. v \<in> set ?vs \<and> s \<in> set ?xs - set ?vs \<longrightarrow> createdAt (snd v) \<le> createdAt (snd s)"
    using oldest_are_oldest by blast
  have surv: "filter (\<lambda>e. fst e \<notin> set (map fst ?vs)) ?xs = filter (\<lambda>e. e \<notin> set ?vs) ?xs"
  proof (rule filter_cong[OF refl])
    fix e assume "e \<in> set ?xs"
    then have "e \<in> set (filter (\<lambda>e. fst e \<notin> set (map fst ?vs)) ?xs) \<longleftrightarrow> e \<in> set ?xs - set ?vs"
      by (simp only: evict_survivors[OF dxs])
    with \<open>e \<in> set ?xs\<close> show "(fst e \<notin> set (map fst ?vs)) = (e \<notin> set ?vs)" by simp
  qed
  have ys: "sessions (snd (createSession m ci now uuid)) = filter (\<lambda>e. e \<notin> set ?vs) ?xs"
    using len surv by (simp add: sessions_createSession Let_def)
  have "set (map fst ?xs) \<subseteq> set (map fst (sessions m))" unfolding P by auto
  with fresh have "uuid \<notin> set (map fst ?xs)" by blast
  then have nf: "uuid \<notin> set (map fst (filter (\<lambda>e. e \<notin> set ?vs) ?xs))" by auto
  have d: "sessions (snd (createAndAdd m ci now uuid)) = filter (\<lambda>e. e \<notin> set ?vs) ?xs @ [(uuid, ?new)]"
    unfolding sessions_createAndAdd ys using nf by (rule map_set_fresh)
  have "length (filter (\<lambda>e. e \<notin> set ?vs) ?xs) = length ?xs - 10"
    using length_evict_distinct[OF dxs, of 10] surv by simp
  with len d have e: "length (sessions (snd (createAndAdd m ci now uuid))) = 91" by simp
  have f: "\<forall>m' ci' now' uuid'. length (sessions m') \<le> MAX_SESSIONS \<longrightarrow>
           length (sessions (snd (createAndAdd m' ci' now' uuid'))) \<le> MAX_SESSIONS"
    using length_createAndAdd by blast
  have g: "\<forall>t0 ops. length (sessions (session_run (initialManager t0) ops)) \<le> MAX_SESSIONS"
    using table_ok_run[OF table_ok_initial] by (simp add: table_ok_def)
  show ?thesis using a b c d e f g by blast
qed

text \<open>The example table, with the sweep not yet due: sessions \<open>s0\<close> to \<open>s9\<close> go.\<close>

lemma ex_len: "length (sessions (fullTable t)) = 100"
  by (simp add: fullTable_def)

lemma ex_keys: "map fst (sessions (fullTable t)) = map (\<lambda>i. ''s'' @ show_nat i) [0..<100]"
  by (simp add: fullTable_def exampleInfo_def comp_def)

lemma ex_distinct: "distinct (map (\<lambda>i. ''s'' @ show_nat i) [0..<100])"
  by code_simp

lemma ex_fresh: "''new'' \<notin> set (map (\<lambda>i. ''s'' @ show_nat i) [0..<100])"
  by code_simp


lemma ex_not_due: "snd (cleanupExpiredSessions (fullTable 400000) 400100) = fullTable 400000"
  by (simp add: cleanupExpiredSessions_def fullTable_def CLEANUP_INTERVAL_def)

theorem createAndAdd_capacity_witness:
  "distinct (map fst (sessions (fullTable 400000)))
   \<and> length (sessions (snd (cleanupExpiredSessions (fullTable 400000) 400100))) = MAX_SESSIONS
   \<and> ''new'' \<notin> set (map fst (sessions (fullTable 400000)))
   \<and> length (oldest 10 (sessions (snd (cleanupExpiredSessions (fullTable 400000) 400100)))) = 10
   \<and> length (sessions (snd (createAndAdd (fullTable 400000) None 400100 ''new''))) = 91"
proof -
  have h1: "distinct (map fst (sessions (fullTable 400000)))"
    unfolding ex_keys by (rule ex_distinct)
  have h2: "length (sessions (snd (cleanupExpiredSessions (fullTable 400000) 400100))) = MAX_SESSIONS"
    unfolding ex_not_due by (simp add: ex_len MAX_SESSIONS_def)
  have h3: "''new'' \<notin> set (map fst (sessions (fullTable 400000)))"
    unfolding ex_keys by (rule ex_fresh)
  from createAndAdd_capacity[OF h1 h2 h3, of None] h1 h2 h3 show ?thesis by blast
qed

lemma cex_sweep:
  "length (sessions (snd (createAndAdd (fullTable 0) None 400100 ''new''))) = 100"
  by code_simp

lemma cex_newest_gone:
  "map_of (sessions (snd (createAndAdd (fullTable 0) None 400100 ''new''))) ''s99'' = None"
  by code_simp

lemma cex_oldest_kept:
  "map_of (sessions (snd (createAndAdd (fullTable 0) None 400100 ''new''))) ''s0''
     = Some (snd (exampleInfo 0))"
  by code_simp

lemma cex_add:
  "length (sessions (addSession (fullTable 0) ''new'' (newSSETransport ''new'' None) None 400100)) = 101"
  by code_simp

text \<open>
  C4 as stated fails on the example table when the sweep is due (last sweep at 0,
  now 400100): the sweep removes the expired session \<open>s99\<close>, the newest by
  creation time; the table then holds 99 sessions, nothing is evicted, and the
  oldest session \<open>s0\<close> is still there beside the new one. And
  \<open>addSession\<close> called on its own on the full table leaves 101 sessions.
\<close>

theorem createAndAdd_sweep_counterexample:
  "length (sessions (fullTable 0)) = 100
   \<and> length (sessions (snd (createAndAdd (fullTable 0) None 400100 ''new''))) = 100
   \<and> map_of (sessions (snd (createAndAdd (fullTable 0) None 400100 ''new''))) ''s99'' = None
   \<and> map_of (sessions (snd (createAndAdd (fullTable 0) None 400100 ''new''))) ''s0''
       = Some (snd (exampleInfo 0))
   \<and> createdAt (snd (exampleInfo 0)) < createdAt (snd (exampleInfo 99))
   \<and> length (sessions (addSession (fullTable 0) ''new'' (newSSETransport ''new'' None) None 400100))
       = 101"
  using cex_sweep cex_newest_gone cex_oldest_kept cex_add
  by (simp add: ex_len exampleInfo_def)

section \<open>Properties of the synchronous transport\<close>

subsection \<open>What holds: one response per request, ids kept when truthy\<close>

lemma valid_truthy: "valid_message m \<Longrightarrow> json_truthy m"
  by (cases m) (simp_all add: valid_message_def get_prop_def)

lemma rpc_id_error:
  "rpc_id (createJsonRpcError eid c msg d) = (if truthy_opt eid then the eid else JNull)"
  by (simp add: createJsonRpcError_def)

lemma rpc_id_initialize:
  "rpc_id (fst (handleInitializeMethod st c m)) = the (get_prop m ''id'')"
  by (simp add: handleInitializeMethod_def split: prod.splits)

lemma rpc_id_callTool:
  "get_prop m ''id'' = Some i \<Longrightarrow> json_truthy i \<Longrightarrow> rpc_id (handleCallToolMethod reg m) = i"
  by (simp add: handleCallToolMethod_def Let_def rpc_id_error truthy_opt_def
      split: sum.splits prod.splits)

lemma process_notification:
  "valid_message m \<Longrightarrow> get_prop m ''id'' = None \<Longrightarrow>
   processJsonRpcMessage reg st c m = (None, st)"
  using valid_truthy[of m] by (simp add: processJsonRpcMessage_def valid_message_def)

lemma process_request:
  assumes "valid_message m" and "get_prop m ''id'' = Some i"
  shows "\<exists>r. fst (processJsonRpcMessage reg st c m) = Some r \<and> (json_truthy i \<longrightarrow> rpc_id r = i)"
proof -
  have t: "json_truthy m" using assms(1) by (rule valid_truthy)
  have v: "get_prop m ''jsonrpc'' = Some (JStr ''2.0'')" using assms(1) by (simp add: valid_message_def)
  consider (init) "get_prop m ''method'' = Some (JStr ''initialize'')"
    | (list) "get_prop m ''method'' = Some (JStr ''tools/list'')"
    | (call) "get_prop m ''method'' = Some (JStr ''tools/call'')"
    | (ping) "get_prop m ''method'' = Some (JStr ''ping'')"
    | (other) "get_prop m ''method'' \<noteq> Some (JStr ''initialize'')"
        "get_prop m ''method'' \<noteq> Some (JStr ''tools/list'')"
        "get_prop m ''method'' \<noteq> Some (JStr ''tools/call'')"
        "get_prop m ''method'' \<noteq> Some (JStr ''ping'')"
    by blast
  then show ?thesis
  proof cases
    case init
    obtain r st' where h: "handleInitializeMethod st c m = (r, st')"
      by (cases "handleInitializeMethod st c m")
    have "rpc_id r = i" using rpc_id_initialize[of st c m] h assms(2) by simp
    then show ?thesis using t v assms(2) init h by (simp add: processJsonRpcMessage_def)
  next
    case list
    then show ?thesis using t v assms(2)
      by (simp add: processJsonRpcMessage_def handleListToolsMethod_def)
  next
    case call
    then show ?thesis using t v assms(2) rpc_id_callTool[OF assms(2), of reg]
      by (simp add: processJsonRpcMessage_def)
  next
    case ping
    then show ?thesis using t v assms(2)
      by (simp add: processJsonRpcMessage_def createPingResponse_def)
  next
    case other
    then show ?thesis using t v assms(2)
      by (simp add: processJsonRpcMessage_def rpc_id_error truthy_opt_def)
  qed
qed

lemma processAll_count:
  assumes "\<forall>m \<in> set messages. valid_message m"
  shows "length (filter (\<lambda>r. r \<noteq> None) (fst (processAll reg st c messages)))
       = length (filter (\<lambda>m. get_prop m ''id'' \<noteq> None) messages)"
  using assms
proof (induction messages arbitrary: st)
  case Nil
  then show ?case by simp
next
  case (Cons m ms)
  obtain r st' where p: "processJsonRpcMessage reg st c m = (r, st')"
    by (cases "processJsonRpcMessage reg st c m")
  obtain rs st'' where q: "processAll reg st' c ms = (rs, st'')"
    by (cases "processAll reg st' c ms")
  have vm: "valid_message m" using Cons.prems by simp
  have r: "(r \<noteq> None) = (get_prop m ''id'' \<noteq> None)"
  proof (cases "get_prop m ''id''")
    case None
    then show ?thesis using process_notification[OF vm None, of reg st c] p by simp
  next
    case (Some i)
    then show ?thesis using process_request[OF vm Some, of reg st c] p by auto
  qed
  have IH: "length (filter (\<lambda>r. r \<noteq> None) rs)
       = length (filter (\<lambda>m. get_prop m ''id'' \<noteq> None) ms)"
    using Cons.IH[of st'] Cons.prems q by simp
  show ?case using r IH by (simp add: p q)
qed

subsection \<open>Batches and ids (C2)\<close>

text \<open>
  C2 claims that every response carries the id of its request unchanged, id 0
  included, and that a batch of notifications only yields no response body. The
  code at two batches: the request with id 0 and the unknown method \<open>foo\<close> is
  answered by an error whose id is \<open>null\<close> (\<open>id || null\<close> in
  \<open>createJsonRpcError\<close>), while a \<open>ping\<close> with id 0 keeps its id; and the batch
  of one notification is answered with status 200 and the body \<open>[]\<close>, while the
  same notification sent alone gets 204 and no body.
\<close>

theorem handleHttpPost_id0_and_empty_batch:
  "response_ids (fst (handleHttpPost exampleRegistry noSessions
        (exampleContext (JArr [request (JNum 0) ''foo''])))) = [JNull]
   \<and> response_ids (fst (handleHttpPost exampleRegistry noSessions
        (exampleContext (JArr [request (JNum 0) ''ping''])))) = [JNum 0]
   \<and> fst (handleHttpPost exampleRegistry noSessions
        (exampleContext (JArr [notification ''notifications/initialized''])))
       = \<lparr>status = 200, resp_body = Many []\<rparr>
   \<and> fst (handleHttpPost exampleRegistry noSessions
        (exampleContext (notification ''notifications/initialized'')))
       = \<lparr>status = 204, resp_body = NoBody\<rparr>"
  by (simp add: handleHttpPost_def exampleContext_def exampleRegistry_def noSessions_def
      request_def notification_def processJsonRpcMessage_def get_prop_def response_ids_def
      createJsonRpcError_def truthy_opt_def createPingResponse_def)

end
